theory Spec2Isabelle
  imports Main "HOL-Library.Word" "HOL-Library.Log_Nat" "HOL-Library.Sublist"
begin

section \<open>JavaScript numbers\<close>

text \<open>
  \<^verbatim>\<open>results.js\<close> computes with JavaScript Numbers (IEEE 754 binary64). A Number is NaN,
  one of the two infinities, or a finite double, which is a rational; \<open>Fin q\<close> carries that
  rational. The two zeros are one value here: the program only compares Numbers and tests
  them with \<^verbatim>\<open>Number.isFinite\<close>, and neither tells \<open>-0\<close> from \<open>+0\<close>. The type
  admits every rational, so a statement about all \<open>Fin q\<close> covers all finite doubles.
\<close>

datatype jsnum = NaN | PosInf | NegInf | Fin rat

text \<open>\<^verbatim>\<open>Number.isFinite(x)\<close> for a Number \<open>x\<close>.\<close>

fun isFinite :: "jsnum \<Rightarrow> bool" where
  "isFinite (Fin q) = True"
| "isFinite NaN = False"
| "isFinite PosInf = False"
| "isFinite NegInf = False"

text \<open>
  The relational operators \<^verbatim>\<open>a >= b\<close> and \<^verbatim>\<open>a < b\<close> on Numbers: false as soon as one
  side is NaN, otherwise the order of the extended rationals.
\<close>

fun js_ge :: "jsnum \<Rightarrow> jsnum \<Rightarrow> bool" where
  "js_ge NaN b = False"
| "js_ge a NaN = False"
| "js_ge PosInf b = True"
| "js_ge a NegInf = True"
| "js_ge NegInf b = False"
| "js_ge a PosInf = False"
| "js_ge (Fin x) (Fin y) = (y \<le> x)"

fun js_lt :: "jsnum \<Rightarrow> jsnum \<Rightarrow> bool" where
  "js_lt NaN b = False"
| "js_lt a NaN = False"
| "js_lt a NegInf = False"
| "js_lt PosInf b = False"
| "js_lt NegInf b = True"
| "js_lt a PosInf = True"
| "js_lt (Fin x) (Fin y) = (x < y)"

fun negate :: "jsnum \<Rightarrow> jsnum" where
  "negate NaN = NaN"
| "negate PosInf = NegInf"
| "negate NegInf = PosInf"
| "negate (Fin q) = Fin (- q)"

subsection \<open>Rounding a mathematical value to a double\<close>

text \<open>
  A decimal literal, in the source text or in a string handed to \<^verbatim>\<open>Number\<close>, denotes
  the double nearest to its mathematical value, ties going to the even significand, and
  an infinity from \<open>2^1024 - 2^970\<close> on. \<open>ilog2 a\<close> is \<open>\<lfloor>log\<^sub>2 a\<rfloor>\<close> for a positive
  rational, \<open>pow2 e\<close> is \<open>2^e\<close> for an integer exponent.
\<close>

definition pow2 :: "int \<Rightarrow> rat" where
  "pow2 e = (if 0 \<le> e then 2 ^ nat e else 1 / 2 ^ nat (- e))"

definition pow10 :: "int \<Rightarrow> rat" where
  "pow10 e = (if 0 \<le> e then 10 ^ nat e else 1 / 10 ^ nat (- e))"

definition ilog2 :: "rat \<Rightarrow> int" where
  "ilog2 a = (case quotient_of a of (n, d) \<Rightarrow>
     let k = bitlen n - bitlen d in if pow2 k \<le> a then k else k - 1)"

definition round_half_even :: "rat \<Rightarrow> int" where
  "round_half_even q =
     (let f = \<lfloor>q\<rfloor>; r = q - of_int f
      in if r < 1 / 2 then f else if 1 / 2 < r then f + 1 else if even f then f else f + 1)"

definition round_double :: "rat \<Rightarrow> jsnum" where
  "round_double q =
     (if q = 0 then Fin 0
      else let a = \<bar>q\<bar>;
               p = max (ilog2 a - 52) (- 1074);
               v = of_int (round_half_even (a / pow2 p)) * pow2 p
           in if pow2 1024 \<le> v then (if q < 0 then NegInf else PosInf)
              else Fin (if q < 0 then - v else v))"

text \<open>
  The Number literals of \<^verbatim>\<open>assessPatients\<close>. The integers are doubles themselves;
  \<^verbatim>\<open>99.6\<close> is not, and the literal denotes the double next to it.
\<close>

definition lit_99_6 :: jsnum where
  "lit_99_6 = round_double (996 / 10)"

section \<open>JavaScript strings\<close>

text \<open>
  A JavaScript string is a sequence of 16-bit code units. \<open>js\<close> turns an ASCII literal
  into one.
\<close>

type_synonym jsstring = "16 word list"

definition js :: "string \<Rightarrow> jsstring" where
  "js s = map of_char s"

text \<open>The class \<^verbatim>\<open>\d\<close> of a regular expression and the decimal digits of a numeric literal.\<close>

definition isDigit :: "16 word \<Rightarrow> bool" where
  "isDigit c \<longleftrightarrow> 0x30 \<le> c \<and> c \<le> 0x39"

text \<open>White space and line terminators, as \<^verbatim>\<open>Number\<close> strips them from both ends.\<close>

definition isWhiteSpace :: "16 word \<Rightarrow> bool" where
  "isWhiteSpace c \<longleftrightarrow>
     c \<in> {0x09, 0x0A, 0x0B, 0x0C, 0x0D, 0x20, 0xA0, 0x1680, 0x2028, 0x2029, 0x202F,
           0x205F, 0x3000, 0xFEFF}
     \<or> (0x2000 \<le> c \<and> c \<le> 0x200A)"

definition trim :: "jsstring \<Rightarrow> jsstring" where
  "trim s = rev (dropWhile isWhiteSpace (rev (dropWhile isWhiteSpace s)))"

text \<open>The value of a digit in a radix up to 16, and of a string of such digits.\<close>

definition digit_of :: "16 word \<Rightarrow> int option" where
  "digit_of c =
     (if 0x30 \<le> c \<and> c \<le> 0x39 then Some (uint c - 48)
      else if 0x61 \<le> c \<and> c \<le> 0x66 then Some (uint c - 87)
      else if 0x41 \<le> c \<and> c \<le> 0x46 then Some (uint c - 55)
      else None)"

fun radix_acc :: "int \<Rightarrow> int \<Rightarrow> jsstring \<Rightarrow> int option" where
  "radix_acc b a [] = Some a"
| "radix_acc b a (c # cs) =
     (case digit_of c of
        None \<Rightarrow> None
      | Some d \<Rightarrow> if d < b then radix_acc b (b * a + d) cs else None)"

definition parse_radix :: "int \<Rightarrow> jsstring \<Rightarrow> int option" where
  "parse_radix b s = (if s = [] then None else radix_acc b 0 s)"

text \<open>The mathematical value of a string of decimal digits.\<close>

definition decimal_val :: "jsstring \<Rightarrow> int" where
  "decimal_val ds = foldl (\<lambda>a c. 10 * a + (uint c - 48)) 0 ds"

subsection \<open>\<^verbatim>\<open>Number\<close> applied to a string\<close>

text \<open>
  The grammar \<^verbatim>\<open>StringNumericLiteral\<close> of ECMAScript: after trimming, the empty
  string is 0; \<^verbatim>\<open>0x\<close>, \<^verbatim>\<open>0o\<close> and \<^verbatim>\<open>0b\<close> introduce an unsigned integer in
  radix 16, 8 and 2; otherwise an optional sign is followed by \<^verbatim>\<open>Infinity\<close> or by a
  decimal literal (digits, an optional fraction, an optional exponent, at least one digit
  before the exponent). Everything else is NaN.
\<close>

definition parse_nondecimal :: "jsstring \<Rightarrow> int option" where
  "parse_nondecimal t =
     (case t of
        z # x # ds \<Rightarrow>
          if z \<noteq> 0x30 then None
          else if x = 0x78 \<or> x = 0x58 then parse_radix 16 ds
          else if x = 0x6F \<or> x = 0x4F then parse_radix 8 ds
          else if x = 0x62 \<or> x = 0x42 then parse_radix 2 ds
          else None
      | _ \<Rightarrow> None)"

definition parse_exponent :: "jsstring \<Rightarrow> int option" where
  "parse_exponent r =
     (case r of
        [] \<Rightarrow> Some 0
      | c # r' \<Rightarrow>
          if c = 0x65 \<or> c = 0x45 then
            (case r' of
               [] \<Rightarrow> None
             | s # ds \<Rightarrow>
                 if s = 0x2B then parse_radix 10 ds
                 else if s = 0x2D then map_option uminus (parse_radix 10 ds)
                 else parse_radix 10 r')
          else None)"

definition parse_unsigned :: "jsstring \<Rightarrow> jsnum option" where
  "parse_unsigned t =
     (if t = js ''Infinity'' then Some PosInf
      else
        let ip = takeWhile isDigit t; r1 = dropWhile isDigit t;
            fp = (case r1 of [] \<Rightarrow> [] | c # r \<Rightarrow> if c = 0x2E then takeWhile isDigit r else []);
            r2 = (case r1 of [] \<Rightarrow> [] | c # r \<Rightarrow> if c = 0x2E then dropWhile isDigit r else r1)
        in if ip = [] \<and> fp = [] then None
           else (case parse_exponent r2 of
                   None \<Rightarrow> None
                 | Some ex \<Rightarrow>
                     Some (round_double
                       ((of_int (decimal_val ip) + of_int (decimal_val fp) / 10 ^ length fp)
                         * pow10 ex))))"

definition parse_decimal :: "jsstring \<Rightarrow> jsnum option" where
  "parse_decimal t =
     (case t of
        [] \<Rightarrow> None
      | c # u \<Rightarrow>
          if c = 0x2B then parse_unsigned u
          else if c = 0x2D then map_option negate (parse_unsigned u)
          else parse_unsigned t)"

definition StringToNumber :: "jsstring \<Rightarrow> jsnum" where
  "StringToNumber s =
     (let t = trim s
      in if t = [] then Fin 0
         else (case parse_nondecimal t of
                 Some n \<Rightarrow> round_double (of_int n)
               | None \<Rightarrow> (case parse_decimal t of Some v \<Rightarrow> v | None \<Rightarrow> NaN)))"

section \<open>JavaScript values\<close>

text \<open>
  The values that \<^verbatim>\<open>JSON.parse\<close> produces, and \<^verbatim>\<open>undefined\<close>, which reading an
  absent property gives. An object is the list of its own properties, each under its
  name.
\<close>

datatype jsvalue =
    Undefined
  | Null
  | Bool bool
  | Num jsnum
  | Str jsstring
  | Arr "jsvalue list"
  | Obj "(jsstring \<times> jsvalue) list"

text \<open>
  What the program can throw: a \<^verbatim>\<open>TypeError\<close> of the language, the \<^verbatim>\<open>SyntaxError\<close> of
  \<^verbatim>\<open>res.json()\<close>, the rejection of \<^verbatim>\<open>fetch\<close>, and the \<^verbatim>\<open>Error\<close> that
  \<^verbatim>\<open>fetchWithRetry\<close> raises with the status in its message.
\<close>

datatype error = TypeError | SyntaxError | NetworkError | HttpError nat

definition and_then :: "error + 'a \<Rightarrow> ('a \<Rightarrow> error + 'b) \<Rightarrow> error + 'b" where
  "and_then m f = (case m of Inl e \<Rightarrow> Inl e | Inr x \<Rightarrow> f x)"

text \<open>
  Property access \<^verbatim>\<open>v.name\<close>, for the names this program reads (\<^verbatim>\<open>patient_id\<close>,
  \<^verbatim>\<open>age\<close>, \<^verbatim>\<open>temperature\<close>, \<^verbatim>\<open>blood_pressure\<close>, \<^verbatim>\<open>data\<close>): none of them is a
  property of a built-in prototype, of a string or of an array, so only an object's own
  property answers; reading a property of \<^verbatim>\<open>null\<close> or \<^verbatim>\<open>undefined\<close> throws.
\<close>

fun get_prop :: "jsvalue \<Rightarrow> jsstring \<Rightarrow> error + jsvalue" where
  "get_prop Undefined k = Inl TypeError"
| "get_prop Null k = Inl TypeError"
| "get_prop (Obj kvs) k = Inr (case map_of kvs k of None \<Rightarrow> Undefined | Some v \<Rightarrow> v)"
| "get_prop v k = Inr Undefined"

text \<open>
  Conversion of an object to a primitive fails exactly when the object has an own property
  \<^verbatim>\<open>toString\<close>: no parsed JSON value is callable, so the own property hides
  \<^verbatim>\<open>Object.prototype.toString\<close>, and \<^verbatim>\<open>valueOf\<close>, own or inherited, yields no
  primitive. An array is converted by \<^verbatim>\<open>join\<close>, which converts its elements.
\<close>

fun unconvertible :: "jsvalue \<Rightarrow> bool" where
  "unconvertible (Obj kvs) = (map_of kvs (js ''toString'') \<noteq> None)"
| "unconvertible (Arr xs) = list_ex unconvertible xs"
| "unconvertible v = False"

text \<open>
  \<^verbatim>\<open>Number(xs)\<close> for an array is \<^verbatim>\<open>Number(xs.join(","))\<close>. The joined text is
  empty for the empty array, holds a comma, which no numeric literal has, from two
  elements on, and is the text of the element for a single one: empty for
  \<^verbatim>\<open>null\<close> and \<^verbatim>\<open>undefined\<close>, \<^verbatim>\<open>true\<close> or \<^verbatim>\<open>false\<close>, the string itself,
  \<^verbatim>\<open>[object Object]\<close>, or the decimal text of a Number, which reads back as that Number.
\<close>

fun array_number :: "jsvalue list \<Rightarrow> jsnum"
  and element_number :: "jsvalue \<Rightarrow> jsnum" where
  "array_number [] = Fin 0"
| "array_number [x] = element_number x"
| "array_number (x # y # zs) = NaN"
| "element_number Undefined = Fin 0"
| "element_number Null = Fin 0"
| "element_number (Bool b) = NaN"
| "element_number (Num n) = n"
| "element_number (Str s) = StringToNumber s"
| "element_number (Arr ys) = array_number ys"
| "element_number (Obj kvs) = NaN"

text \<open>\<^verbatim>\<open>Number(v)\<close>.\<close>

fun ToNumber :: "jsvalue \<Rightarrow> error + jsnum" where
  "ToNumber Undefined = Inr NaN"
| "ToNumber Null = Inr (Fin 0)"
| "ToNumber (Bool b) = Inr (Fin (if b then 1 else 0))"
| "ToNumber (Num n) = Inr n"
| "ToNumber (Str s) = Inr (StringToNumber s)"
| "ToNumber (Arr xs) = (if unconvertible (Arr xs) then Inl TypeError else Inr (array_number xs))"
| "ToNumber (Obj kvs) = (if unconvertible (Obj kvs) then Inl TypeError else Inr NaN)"

section \<open>The risk assessment\<close>

subsection \<open>The regular expression of the blood pressure\<close>

text \<open>
  \<^verbatim>\<open>/^(\d{2,3})\/(\d{2,3})$/\<close>, as a backtracking matcher. \<open>digits_2_3\<close> is the
  group \<^verbatim>\<open>(\d{2,3})\<close>: its ways to match at the head of the input, the greedy one
  first, each with the captured text and the rest of the input. \<open>slash\<close> is
  \<^verbatim>\<open>\/\<close>. Without the flag \<^verbatim>\<open>m\<close>, \<^verbatim>\<open>^\<close> is the start of the input and \<^verbatim>\<open>$\<close>
  its end. The result is the first match, as the pair of the two captures.
\<close>

definition digits_2_3 :: "jsstring \<Rightarrow> (jsstring \<times> jsstring) list" where
  "digits_2_3 s =
     concat (map (\<lambda>n. if n \<le> length s \<and> list_all isDigit (take n s)
                        then [(take n s, drop n s)] else []) [3, 2])"

definition slash :: "jsstring \<Rightarrow> jsstring list" where
  "slash s = (case s of [] \<Rightarrow> [] | c # r \<Rightarrow> if c = 0x2F then [r] else [])"

definition bp_match :: "jsstring \<Rightarrow> (jsstring \<times> jsstring) option" where
  "bp_match s =
     (case concat (map (\<lambda>(m1, r1).
             concat (map (\<lambda>r2.
               concat (map (\<lambda>(m2, r3). if r3 = [] then [(m1, m2)] else [])
                 (digits_2_3 r2)))
               (slash r1)))
             (digits_2_3 s)) of
        [] \<Rightarrow> None
      | m # ms \<Rightarrow> Some m)"

subsection \<open>\<^verbatim>\<open>assessPatients\<close>\<close>

text \<open>The local variables of one turn of the loop.\<close>

record factors =
  id' :: jsvalue
  age :: jsnum
  ageValid :: bool
  ageRisk :: nat
  temp :: jsnum
  tempValid :: bool
  tempRisk :: nat
  bpValid :: bool
  bpRisk :: nat

definition totalRisk :: "factors \<Rightarrow> nat" where
  "totalRisk f = ageRisk f + tempRisk f + bpRisk f"

text \<open>
  The body of the loop up to the total: the four property reads and the two coercions,
  each of which can throw, and the three scores. A record is any value of the array.
\<close>

definition risk_factors :: "jsvalue \<Rightarrow> error + factors" where
  "risk_factors p =
     and_then (get_prop p (js ''patient_id'')) (\<lambda>i.
     and_then (get_prop p (js ''age'')) (\<lambda>age_field.
     and_then (ToNumber age_field) (\<lambda>a.
     and_then (get_prop p (js ''temperature'')) (\<lambda>temperature_field.
     and_then (ToNumber temperature_field) (\<lambda>t.
     and_then (get_prop p (js ''blood_pressure'')) (\<lambda>bp.
       let av = isFinite a;
           ar = (if av then (if js_ge a (Fin 66) then 2 else if js_ge a (Fin 40) then 1 else 0)
                 else 0);
           tv = isFinite t;
           tr = (if tv then (if js_ge t (Fin 101) then 2 else if js_ge t lit_99_6 then 1 else 0)
                 else 0);
           match = (case bp of Str s \<Rightarrow> bp_match s | _ \<Rightarrow> None);
           bv = (case match of None \<Rightarrow> False | Some m \<Rightarrow> True);
           br = (case match of
                   None \<Rightarrow> 0
                 | Some (m1, m2) \<Rightarrow>
                     let sys = StringToNumber m1; dia = StringToNumber m2
                     in if js_ge sys (Fin 140) \<or> js_ge dia (Fin 90) then 3
                        else if js_ge sys (Fin 130) \<or> js_ge dia (Fin 80) then 2
                        else if js_ge sys (Fin 120) \<and> js_lt dia (Fin 80) then 1
                        else if js_lt sys (Fin 120) \<and> js_lt dia (Fin 80) then 0
                        else 0)
       in Inr \<lparr>id' = i, age = a, ageValid = av, ageRisk = ar,
               temp = t, tempValid = tv, tempRisk = tr, bpValid = bv, bpRisk = br\<rparr>))))))"

text \<open>The three arrays that the loop fills, and the three pushes that end its body.\<close>

record buckets =
  highRisk :: "jsvalue list"
  fever :: "jsvalue list"
  dataIssues :: "jsvalue list"

definition push_alerts :: "factors \<Rightarrow> buckets \<Rightarrow> buckets" where
  "push_alerts f b =
     (let b1 = (if 4 \<le> totalRisk f then b\<lparr>highRisk := highRisk b @ [id' f]\<rparr> else b);
          b2 = (if tempValid f \<and> js_ge (temp f) lit_99_6
                then b1\<lparr>fever := fever b1 @ [id' f]\<rparr> else b1)
      in if \<not> bpValid f \<or> \<not> ageValid f \<or> \<not> tempValid f
         then b2\<lparr>dataIssues := dataIssues b2 @ [id' f]\<rparr> else b2)"

fun assess_loop :: "jsvalue list \<Rightarrow> buckets \<Rightarrow> error + buckets" where
  "assess_loop [] b = Inr b"
| "assess_loop (p # ps) b =
     (case risk_factors p of
        Inl e \<Rightarrow> Inl e
      | Inr f \<Rightarrow> assess_loop ps (push_alerts f b))"

record alerts =
  highRiskPatients :: "jsvalue list"
  feverPatients :: "jsvalue list"
  dataQualityIssues :: "jsvalue list"

definition assessPatients :: "jsvalue list \<Rightarrow> error + alerts" where
  "assessPatients patients =
     (case assess_loop patients \<lparr>highRisk = [], fever = [], dataIssues = []\<rparr> of
        Inl e \<Rightarrow> Inl e
      | Inr b \<Rightarrow> Inr \<lparr>highRiskPatients = highRisk b, feverPatients = fever b,
                      dataQualityIssues = dataIssues b\<rparr>)"

section \<open>Fetching the patients\<close>

text \<open>
  The HTTP client is a parameter: a function from the request and the state of the
  outside world to what \<^verbatim>\<open>fetch\<close> answers and the next state. A response has its
  status and the value that \<^verbatim>\<open>res.json()\<close> parses from its body, if the body is JSON;
  \<^verbatim>\<open>res.ok\<close> says that the status is in 200..299. The program's own effects, its
  requests and its timers, are recorded in a trace, in order; console output is left out.
\<close>

record request =
  url :: string
  headers :: "(string \<times> string) list"

datatype fetch_result = NetworkFailure | Response nat "jsvalue option"

datatype event = Fetch request | Wait nat

type_synonym 'w client = "request \<Rightarrow> 'w \<Rightarrow> fetch_result \<times> 'w"

type_synonym 'w io = "'w \<times> event list"

definition ok :: "nat \<Rightarrow> bool" where
  "ok status \<longleftrightarrow> 200 \<le> status \<and> status \<le> 299"

text \<open>\<^verbatim>\<open>await wait(ms)\<close>.\<close>

definition wait :: "nat \<Rightarrow> 'w io \<Rightarrow> 'w io" where
  "wait ms s = (fst s, snd s @ [Wait ms])"

text \<open>\<^verbatim>\<open>await fetch(url, options)\<close>.\<close>

definition fetch :: "'w client \<Rightarrow> request \<Rightarrow> 'w io \<Rightarrow> fetch_result \<times> 'w io" where
  "fetch client req s =
     (case client req (fst s) of (res, w) \<Rightarrow> (res, (w, snd s @ [Fetch req])))"

text \<open>
  \<^verbatim>\<open>fetchWithRetry\<close>: the loop \<^verbatim>\<open>while (true)\<close> has no bound, so the function is
  partial, and \<open>None\<close> says that it never returns. A result is the value returned or
  the error thrown, with the state reached.
\<close>

partial_function (option) fetchWithRetry ::
  "'w client \<Rightarrow> request \<Rightarrow> 'w io \<Rightarrow> ((error + jsvalue) \<times> 'w io) option" where
  "fetchWithRetry client req s =
     (case fetch client req s of (res, s1) \<Rightarrow>
        (case res of
           NetworkFailure \<Rightarrow> Some (Inl NetworkError, s1)
         | Response status body \<Rightarrow>
             if status = 429 then fetchWithRetry client req (wait 15000 s1)
             else if status = 500 \<or> status = 503 then fetchWithRetry client req (wait 1000 s1)
             else if \<not> ok status then Some (Inl (HttpError status), s1)
             else (case body of
                     None \<Rightarrow> Some (Inl SyntaxError, s1)
                   | Some data \<Rightarrow> Some (Inr data, s1))))"

text \<open>The text of a page number in the URL.\<close>

fun show_nat :: "nat \<Rightarrow> string" where
  "show_nat n =
     (if n < 10 then [''0123456789'' ! n]
      else show_nat (n div 10) @ [''0123456789'' ! (n mod 10)])"

definition page_request :: "nat \<Rightarrow> request" where
  "page_request page =
     \<lparr>url = ''https://assessment.ksensetech.com/api/patients?page='' @ show_nat page
              @ ''&limit=20'',
      headers = [(''x-api-key'', ''ak_034df9cf16216ec83e065f8060ff92d03d7b0c98442baf24'')]\<rparr>"

text \<open>
  \<^verbatim>\<open>fetchPatientsPage\<close>: the body of \<^verbatim>\<open>try\<close> is \<open>page_body\<close>, which reads
  \<^verbatim>\<open>response.data ?? []\<close> and keeps it if it is an array; \<^verbatim>\<open>catch\<close> turns every
  error into the empty page.
\<close>

definition page_body :: "error + jsvalue \<Rightarrow> error + jsvalue list" where
  "page_body r =
     and_then r (\<lambda>response.
     and_then (get_prop response (js ''data'')) (\<lambda>d.
       let raw = (case d of Undefined \<Rightarrow> Arr [] | Null \<Rightarrow> Arr [] | v \<Rightarrow> v)
       in Inr (case raw of Arr xs \<Rightarrow> xs | v \<Rightarrow> [])))"

definition catch :: "error + 'a \<Rightarrow> (error \<Rightarrow> error + 'a) \<Rightarrow> error + 'a" where
  "catch m h = (case m of Inl e \<Rightarrow> h e | Inr x \<Rightarrow> Inr x)"

definition fetchPatientsPage ::
  "'w client \<Rightarrow> nat \<Rightarrow> 'w io \<Rightarrow> ((error + jsvalue list) \<times> 'w io) option" where
  "fetchPatientsPage client page s =
     (case fetchWithRetry client (page_request page) s of
        None \<Rightarrow> None
      | Some (r, s1) \<Rightarrow> Some (catch (page_body r) (\<lambda>err. Inr []), s1))"

text \<open>
  \<^verbatim>\<open>fetchAllPatients\<close>: the loop \<^verbatim>\<open>while (page <= 3)\<close>, with the page number and
  the array \<^verbatim>\<open>allPatients\<close> as its variables. An empty page leaves both as they are.
\<close>

partial_function (option) fetchAll_loop ::
  "'w client \<Rightarrow> nat \<Rightarrow> jsvalue list \<Rightarrow> 'w io \<Rightarrow> ((error + jsvalue list) \<times> 'w io) option"
  where
  "fetchAll_loop client page allPatients s =
     (if page \<le> 3 then
        (case fetchPatientsPage client page s of
           None \<Rightarrow> None
         | Some (r, s1) \<Rightarrow>
             (case r of
                Inl e \<Rightarrow> Some (Inl e, s1)
              | Inr patients \<Rightarrow>
                  if patients = [] then fetchAll_loop client page allPatients s1
                  else fetchAll_loop client (page + 1) (allPatients @ patients)
                         (wait 1000 s1)))
      else Some (Inr allPatients, s))"

definition fetchAllPatients ::
  "'w client \<Rightarrow> 'w io \<Rightarrow> ((error + jsvalue list) \<times> 'w io) option" where
  "fetchAllPatients client s = fetchAll_loop client 1 [] s"

text \<open>
  A client that answers from a fixed script, one entry for each request whatever the
  request is; once the script is used up, every request fails.
\<close>

definition script_client :: "fetch_result list client" where
  "script_client req w = (case w of [] \<Rightarrow> (NetworkFailure, []) | r # rs \<Rightarrow> (r, rs))"

section \<open>Facts about the numbers, the strings and the values\<close>

subsection \<open>Integers below \<open>2^53\<close> are doubles\<close>

text \<open>
  Rounding leaves a natural number below \<open>2^53\<close> as it is: its significand fits. The
  literal \<^verbatim>\<open>99.6\<close> is rounded, and its double is computed once.
\<close>

lemma pow2_nonpos: "p \<le> 0 \<Longrightarrow> pow2 p = 1 / 2 ^ nat (- p)"
  by (cases "p = 0") (simp_all add: pow2_def)

lemma round_half_even_of_int: "round_half_even (of_int k) = k"
  by (simp add: round_half_even_def)

lemma ilog2_of_int_le:
  assumes "0 < n" and "n < 2 ^ 53"
  shows "ilog2 (of_int n) \<le> 52"
proof -
  have "bitlen n \<le> 53"
    using assms by (simp add: bitlen_le_iff_power)
  moreover have "bitlen 1 = 1"
    by (simp add: bitlen_alt_def)
  ultimately show ?thesis
    by (simp add: ilog2_def Let_def)
qed

lemma round_double_of_int:
  assumes "0 \<le> n" and "n < 2 ^ 53"
  shows "round_double (of_int n) = Fin (of_int n)"
proof (cases "n = 0")
  case True
  then show ?thesis by (simp add: round_double_def)
next
  case False
  with assms have pos: "0 < n" by simp
  define p where "p = max (ilog2 (of_int n) - 52) (- 1074)"
  have "p \<le> 0"
    using ilog2_of_int_le [OF pos assms(2)] by (simp add: p_def)
  then have p2: "pow2 p = 1 / 2 ^ nat (- p)"
    by (rule pow2_nonpos)
  have "(of_int n :: rat) / pow2 p = of_int (n * 2 ^ nat (- p))"
    by (simp add: p2)
  then have r: "round_half_even (of_int n / pow2 p) = n * 2 ^ nat (- p)"
    by (simp only: round_half_even_of_int)
  have "of_int (n * 2 ^ nat (- p)) * pow2 p = (of_int n :: rat)"
    by (simp add: p2)
  then have v: "of_int (round_half_even (of_int n / pow2 p)) * pow2 p = (of_int n :: rat)"
    by (simp only: r)
  have "(of_int n :: rat) < 2 ^ 53"
    using assms(2) by (metis of_int_less_numeral_power_cancel_iff)
  moreover have "(2::rat) ^ 53 < pow2 1024"
    by (simp add: pow2_def)
  ultimately have small: "\<not> pow2 1024 \<le> (of_int n :: rat)"
    by linarith
  have a: "\<bar>of_int n :: rat\<bar> = of_int n"
    using pos by simp
  show ?thesis
    using pos small v
    by (simp add: round_double_def Let_def a p_def [symmetric])
qed

lemma lit_99_6_val: "lit_99_6 = Fin (3504363460047667 / 35184372088832)"
  unfolding lit_99_6_def by code_simp

subsection \<open>Strings of decimal digits\<close>

text \<open>
  \<^verbatim>\<open>Number\<close> reads a string of up to 15 decimal digits as the integer that the
  digits spell: nothing is trimmed, no prefix of another radix and no sign is found, and
  the value is below \<open>2^53\<close>.
\<close>

lemma isDigit_uint: "isDigit c \<longleftrightarrow> 48 \<le> uint c \<and> uint c \<le> 57"
  by (simp add: isDigit_def word_le_def)

lemma isWhiteSpace_uint:
  "isWhiteSpace c \<Longrightarrow> uint c < 48 \<or> 57 < uint c"
  by (auto simp: isWhiteSpace_def word_le_def)

lemma digit_not_space: "isDigit c \<Longrightarrow> \<not> isWhiteSpace c"
  using isWhiteSpace_uint [of c] by (auto simp: isDigit_uint)

lemma digit_neq:
  assumes "isDigit c"
  shows "c \<noteq> 0x2B" "c \<noteq> 0x2D" "c \<noteq> 0x2E" "c \<noteq> 0x2F" "c \<noteq> 0x49"
    "c \<noteq> 0x78" "c \<noteq> 0x58" "c \<noteq> 0x6F" "c \<noteq> 0x4F" "c \<noteq> 0x62" "c \<noteq> 0x42"
  using assms by (auto simp: isDigit_uint)

lemma decimal_val_snoc: "decimal_val (ds @ [c]) = 10 * decimal_val ds + (uint c - 48)"
  by (simp add: decimal_val_def)

lemma decimal_val_bounds:
  "list_all isDigit ds \<Longrightarrow> 0 \<le> decimal_val ds \<and> decimal_val ds < 10 ^ length ds"
proof (induction ds rule: rev_induct)
  case Nil
  then show ?case by (simp add: decimal_val_def)
next
  case (snoc c ds)
  then have "48 \<le> uint c" "uint c \<le> 57" and "0 \<le> decimal_val ds"
    and "decimal_val ds < 10 ^ length ds"
    by (simp_all add: isDigit_uint)
  then show ?case
    by (simp add: decimal_val_snoc)
qed

lemma trim_digits:
  assumes "list_all isDigit ds"
  shows "trim ds = ds"
proof -
  have ns: "\<forall>c \<in> set ds. \<not> isWhiteSpace c"
    using assms by (auto simp: list_all_iff digit_not_space)
  then have "dropWhile isWhiteSpace ds = ds"
    by (cases ds) simp_all
  moreover have "dropWhile isWhiteSpace (rev ds) = rev ds"
    using ns by (cases "rev ds") (simp, metis dropWhile.simps(2) list.set_intros(1) set_rev)
  ultimately show ?thesis
    by (simp add: trim_def)
qed

lemma parse_nondecimal_digits:
  assumes "list_all isDigit ds"
  shows "parse_nondecimal ds = None"
  using assms by (auto simp: parse_nondecimal_def isDigit_def split: list.splits)

lemma parse_unsigned_digits:
  assumes "list_all isDigit ds" and "ds \<noteq> []"
  shows "parse_unsigned ds = Some (round_double (of_int (decimal_val ds)))"
proof -
  have ninf: "ds \<noteq> js ''Infinity''"
    using assms(1) by (auto simp: js_def isDigit_def)
  have tw: "takeWhile isDigit ds = ds" and dw: "dropWhile isDigit ds = []"
    using assms(1) by (simp_all add: list_all_iff)
  have nil: "decimal_val [] = 0"
    by (simp add: decimal_val_def)
  show ?thesis
    using assms(2) ninf
    by (simp add: parse_unsigned_def Let_def parse_exponent_def pow10_def tw dw nil)
qed

lemma parse_decimal_digits:
  assumes "list_all isDigit ds" and "ds \<noteq> []"
  shows "parse_decimal ds = Some (round_double (of_int (decimal_val ds)))"
proof -
  obtain c u where ds: "ds = c # u"
    using assms(2) by (cases ds) auto
  then have "isDigit c"
    using assms(1) by simp
  then have "c \<noteq> 0x2B" "c \<noteq> 0x2D"
    by (simp_all add: digit_neq)
  then show ?thesis
    using parse_unsigned_digits [OF assms] by (simp add: parse_decimal_def ds)
qed

lemma StringToNumber_digits:
  assumes "list_all isDigit ds" and "ds \<noteq> []" and "length ds \<le> 15"
  shows "StringToNumber ds = Fin (of_int (decimal_val ds))"
proof -
  have "decimal_val ds < 10 ^ length ds" and nonneg: "0 \<le> decimal_val ds"
    using decimal_val_bounds [OF assms(1)] by simp_all
  moreover have "(10::int) ^ length ds \<le> 10 ^ 15"
    using assms(3) power_increasing [of "length ds" 15 "10::int"] by simp
  ultimately have "decimal_val ds < 2 ^ 53"
    by simp
  then have "round_double (of_int (decimal_val ds)) = Fin (of_int (decimal_val ds))"
    using nonneg by (simp add: round_double_of_int)
  then show ?thesis
    using assms(1,2)
    by (simp add: StringToNumber_def trim_digits parse_nondecimal_digits parse_decimal_digits)
qed

subsection \<open>Reading and coercing values\<close>

lemma get_prop_Inl: "get_prop p k = Inl e \<longleftrightarrow> e = TypeError \<and> (p = Undefined \<or> p = Null)"
  by (cases p) auto

lemma ToNumber_Inl: "ToNumber v = Inl e \<longleftrightarrow> e = TypeError \<and> unconvertible v"
  by (cases v) auto

lemma ToNumber_examples:
  "ToNumber (Arr []) = Inr (Fin 0)"
  "ToNumber (Arr [Num (Fin 5)]) = Inr (Fin 5)"
  "ToNumber (Arr [Num (Fin 1), Num (Fin 2)]) = Inr NaN"
  "ToNumber (Obj []) = Inr NaN"
  "ToNumber (Obj [(js ''toString'', Null)]) = Inl TypeError"
  "ToNumber (Bool True) = Inr (Fin 1)"
  by simp_all

subsection \<open>What the regular expression matches\<close>

text \<open>
  The matcher succeeds on exactly the strings \<open>m1 @ [/] @ m2\<close> with \<open>m1\<close> and
  \<open>m2\<close> runs of two or three digits, and captures \<open>m1\<close> and \<open>m2\<close>.
\<close>

lemma digits_2_3_alts:
  "digits_2_3 s =
     (if 3 \<le> length s \<and> list_all isDigit (take 3 s) then [(take 3 s, drop 3 s)] else [])
     @ (if 2 \<le> length s \<and> list_all isDigit (take 2 s) then [(take 2 s, drop 2 s)] else [])"
  by (simp add: digits_2_3_def)

lemma digits_2_3_sound:
  assumes "(m, r) \<in> set (digits_2_3 s)"
  shows "s = m @ r \<and> list_all isDigit m \<and> (length m = 2 \<or> length m = 3)"
  using assms by (auto simp: digits_2_3_alts split: if_splits)

lemma slash_sound: "r \<in> set (slash s) \<Longrightarrow> s = 0x2F # r"
  by (auto simp: slash_def split: list.splits if_splits)

lemma bp_match_sound:
  assumes "bp_match s = Some (m1, m2)"
  shows "s = m1 @ 0x2F # m2 \<and> list_all isDigit m1 \<and> (length m1 = 2 \<or> length m1 = 3)
         \<and> list_all isDigit m2 \<and> (length m2 = 2 \<or> length m2 = 3)"
proof -
  let ?alts = "concat (map (\<lambda>(m1, r1).
             concat (map (\<lambda>r2.
               concat (map (\<lambda>(m2, r3). if r3 = [] then [(m1, m2)] else [])
                 (digits_2_3 r2)))
               (slash r1)))
             (digits_2_3 s))"
  from assms obtain ms where "?alts = (m1, m2) # ms"
    by (auto simp: bp_match_def split: list.splits)
  then have "(m1, m2) \<in> set ?alts"
    by (metis list.set_intros(1))
  then obtain r1 r2 where a: "(m1, r1) \<in> set (digits_2_3 s)" and b: "r2 \<in> set (slash r1)"
    and c: "(m2, []) \<in> set (digits_2_3 r2)"
    by (auto split: if_splits)
  show ?thesis
    using digits_2_3_sound [OF a] slash_sound [OF b] digits_2_3_sound [OF c] by simp
qed

lemma digits_2_3_whole:
  assumes "list_all isDigit m" and "length m = 2 \<or> length m = 3"
  shows "concat (map (\<lambda>(m2, r3). if r3 = [] then [(x, m2)] else []) (digits_2_3 m)) = [(x, m)]"
  using assms by (auto simp: digits_2_3_alts)

lemma digits_2_3_then_slash:
  assumes "list_all isDigit m" and "length m = 2 \<or> length m = 3"
  shows "concat (map (\<lambda>(m1, r1). concat (map (f m1) (slash r1))) (digits_2_3 (m @ 0x2F # r)))
         = f m r"
proof -
  have ns: "\<not> isDigit 0x2F"
    by (simp add: isDigit_def)
  from assms(2) show ?thesis
  proof
    assume l: "length m = 2"
    then have "\<not> list_all isDigit (take 3 (m @ 0x2F # r))"
      using ns by (simp add: list_all_iff)
    then show ?thesis
      using assms(1) l by (simp add: digits_2_3_alts slash_def)
  next
    assume l: "length m = 3"
    then obtain a b c where m: "m = [a, b, c]"
      by (auto simp: length_Suc_conv numeral_3_eq_3)
    with assms(1) have "isDigit c" by simp
    then have "c \<noteq> 0x2F" by (rule digit_neq)
    then show ?thesis
      using assms(1) by (simp add: digits_2_3_alts slash_def m)
  qed
qed

lemma bp_match_complete:
  assumes "list_all isDigit m1" and "length m1 = 2 \<or> length m1 = 3"
    and "list_all isDigit m2" and "length m2 = 2 \<or> length m2 = 3"
  shows "bp_match (m1 @ 0x2F # m2) = Some (m1, m2)"
  unfolding bp_match_def
  by (simp add: digits_2_3_then_slash [OF assms(1,2)] digits_2_3_whole [OF assms(3,4)])

section \<open>The scores of one record\<close>

text \<open>
  \<open>risk_factors\<close> returns when the four reads and the two coercions do, and then its
  fields are the scores of the source; it throws a \<^verbatim>\<open>TypeError\<close> when the record is
  \<^verbatim>\<open>null\<close> or \<^verbatim>\<open>undefined\<close>, or when the age or the temperature has no
  primitive value.
\<close>

lemma and_then_Inr:
  "and_then m k = Inr y \<longleftrightarrow> (\<exists>x. m = Inr x \<and> k x = Inr y)"
  by (cases m) (simp_all add: and_then_def)

lemma risk_factors_Inr:
  assumes "risk_factors p = Inr f"
  obtains i va a vt t bp where
    "get_prop p (js ''patient_id'') = Inr i"
    "get_prop p (js ''age'') = Inr va" "ToNumber va = Inr a"
    "get_prop p (js ''temperature'') = Inr vt" "ToNumber vt = Inr t"
    "get_prop p (js ''blood_pressure'') = Inr bp"
    "id' f = i" "age f = a" "temp f = t"
    "ageValid f = isFinite a"
    "ageRisk f = (if isFinite a then (if js_ge a (Fin 66) then 2 else if js_ge a (Fin 40) then 1 else 0) else 0)"
    "tempValid f = isFinite t"
    "tempRisk f = (if isFinite t then (if js_ge t (Fin 101) then 2 else if js_ge t lit_99_6 then 1 else 0) else 0)"
    "bpValid f = (case bp of Str s \<Rightarrow> bp_match s \<noteq> None | _ \<Rightarrow> False)"
    "bpRisk f = (case (case bp of Str s \<Rightarrow> bp_match s | _ \<Rightarrow> None) of
                   None \<Rightarrow> 0
                 | Some (m1, m2) \<Rightarrow>
                     let sys = StringToNumber m1; dia = StringToNumber m2
                     in if js_ge sys (Fin 140) \<or> js_ge dia (Fin 90) then 3
                        else if js_ge sys (Fin 130) \<or> js_ge dia (Fin 80) then 2
                        else if js_ge sys (Fin 120) \<and> js_lt dia (Fin 80) then 1
                        else 0)"
proof -
  from assms obtain i va a vt t bp where g:
    "get_prop p (js ''patient_id'') = Inr i"
    "get_prop p (js ''age'') = Inr va" "ToNumber va = Inr a"
    "get_prop p (js ''temperature'') = Inr vt" "ToNumber vt = Inr t"
    "get_prop p (js ''blood_pressure'') = Inr bp"
    and f: "f = \<lparr>id' = i, age = a, ageValid = isFinite a,
      ageRisk = (if isFinite a then (if js_ge a (Fin 66) then 2 else if js_ge a (Fin 40) then 1 else 0) else 0),
      temp = t, tempValid = isFinite t,
      tempRisk = (if isFinite t then (if js_ge t (Fin 101) then 2 else if js_ge t lit_99_6 then 1 else 0) else 0),
      bpValid = (case (case bp of Str s \<Rightarrow> bp_match s | _ \<Rightarrow> None) of None \<Rightarrow> False | Some m \<Rightarrow> True),
      bpRisk = (case (case bp of Str s \<Rightarrow> bp_match s | _ \<Rightarrow> None) of
                   None \<Rightarrow> 0
                 | Some (m1, m2) \<Rightarrow>
                     let sys = StringToNumber m1; dia = StringToNumber m2
                     in if js_ge sys (Fin 140) \<or> js_ge dia (Fin 90) then 3
                        else if js_ge sys (Fin 130) \<or> js_ge dia (Fin 80) then 2
                        else if js_ge sys (Fin 120) \<and> js_lt dia (Fin 80) then 1
                        else if js_lt sys (Fin 120) \<and> js_lt dia (Fin 80) then 0
                        else 0)\<rparr>"
    unfolding risk_factors_def and_then_Inr Let_def by auto
  have v: "bpValid f = (case bp of Str s \<Rightarrow> bp_match s \<noteq> None | _ \<Rightarrow> False)"
    by (auto simp: f split: jsvalue.splits option.splits)
  have r: "bpRisk f = (case (case bp of Str s \<Rightarrow> bp_match s | _ \<Rightarrow> None) of
                   None \<Rightarrow> 0
                 | Some (m1, m2) \<Rightarrow>
                     let sys = StringToNumber m1; dia = StringToNumber m2
                     in if js_ge sys (Fin 140) \<or> js_ge dia (Fin 90) then 3
                        else if js_ge sys (Fin 130) \<or> js_ge dia (Fin 80) then 2
                        else if js_ge sys (Fin 120) \<and> js_lt dia (Fin 80) then 1
                        else 0)"
    by (auto simp: f Let_def split: option.splits)
  show thesis
    by (rule that [OF g _ _ _ _ _ _ _ v r]) (simp_all add: f)
qed

lemma and_then_Inl:
  "and_then m k = Inl e \<longleftrightarrow> m = Inl e \<or> (\<exists>x. m = Inr x \<and> k x = Inl e)"
  by (cases m) (simp_all add: and_then_def)

lemma risk_factors_Inl:
  "risk_factors p = Inl e \<longleftrightarrow>
     e = TypeError
     \<and> (p = Undefined \<or> p = Null
        \<or> (\<exists>v. get_prop p (js ''age'') = Inr v \<and> unconvertible v)
        \<or> (\<exists>v. get_prop p (js ''temperature'') = Inr v \<and> unconvertible v))"
proof (cases "p = Undefined \<or> p = Null")
  case True
  then show ?thesis
    by (auto simp: risk_factors_def and_then_def)
next
  case False
  then obtain i va vt bp where g: "get_prop p (js ''patient_id'') = Inr i"
    "get_prop p (js ''age'') = Inr va" "get_prop p (js ''temperature'') = Inr vt"
    "get_prop p (js ''blood_pressure'') = Inr bp"
    by (cases p) auto
  show ?thesis
  proof (cases "ToNumber va")
    case (Inl e')
    then show ?thesis
      using False g ToNumber_Inl [of va e'] by (auto simp: risk_factors_def and_then_def)
  next
    case a: (Inr a)
    then have na: "\<not> unconvertible va"
      using ToNumber_Inl [of va] by auto
    show ?thesis
    proof (cases "ToNumber vt")
      case (Inl e')
      then show ?thesis
        using False g a na ToNumber_Inl [of vt e'] by (auto simp: risk_factors_def and_then_def)
    next
      case (Inr t)
      then have "\<not> unconvertible vt"
        using ToNumber_Inl [of vt] by auto
      then show ?thesis
        using False g a na Inr by (simp add: risk_factors_def and_then_def Let_def)
    qed
  qed
qed

text \<open>
  Claim C4. The age is valid exactly when \<^verbatim>\<open>Number(p.age)\<close> is finite. A valid age
  scores 2 from 66 on, 1 from 40 to below 66 and 0 below 40; an invalid one scores 0.
\<close>

theorem age_risk_bands:
  assumes "risk_factors p = Inr f"
  shows "(\<exists>v. get_prop p (js ''age'') = Inr v \<and> ToNumber v = Inr (age f))
    \<and> (ageValid f \<longleftrightarrow> isFinite (age f))
    \<and> (\<forall>q. age f = Fin q \<longrightarrow>
          ageValid f
          \<and> (66 \<le> q \<longrightarrow> ageRisk f = 2)
          \<and> (40 \<le> q \<and> q < 66 \<longrightarrow> ageRisk f = 1)
          \<and> (q < 40 \<longrightarrow> ageRisk f = 0))
    \<and> (\<not> isFinite (age f) \<longrightarrow> ageRisk f = 0 \<and> \<not> ageValid f)"
  using assms by (elim risk_factors_Inr) auto

theorem age_risk_bands_witness:
  "risk_factors (Obj [(js ''age'', Num (Fin 70))])
     = Inr \<lparr>id' = Undefined, age = Fin 70, ageValid = True, ageRisk = 2, temp = NaN,
            tempValid = False, tempRisk = 0, bpValid = False, bpRisk = 0\<rparr>
   \<and> risk_factors (Obj [(js ''age'', Str (js ''45''))])
     = Inr \<lparr>id' = Undefined, age = Fin 45, ageValid = True, ageRisk = 1, temp = NaN,
            tempValid = False, tempRisk = 0, bpValid = False, bpRisk = 0\<rparr>
   \<and> risk_factors (Obj [(js ''age'', Num (Fin 39))])
     = Inr \<lparr>id' = Undefined, age = Fin 39, ageValid = True, ageRisk = 0, temp = NaN,
            tempValid = False, tempRisk = 0, bpValid = False, bpRisk = 0\<rparr>
   \<and> risk_factors (Obj [(js ''age'', Str (js ''unknown''))])
     = Inr \<lparr>id' = Undefined, age = NaN, ageValid = False, ageRisk = 0, temp = NaN,
            tempValid = False, tempRisk = 0, bpValid = False, bpRisk = 0\<rparr>"
proof -
  have n45: "StringToNumber (js ''45'') = Fin 45"
    by (simp add: StringToNumber_digits js_def isDigit_def decimal_val_def)
  have nan: "StringToNumber (js ''unknown'') = NaN"
    by (simp add: js_def StringToNumber_def trim_def isWhiteSpace_def parse_nondecimal_def
        parse_decimal_def parse_unsigned_def isDigit_def)
  have a: "risk_factors (Obj [(js ''age'', Num (Fin 70))])
     = Inr \<lparr>id' = Undefined, age = Fin 70, ageValid = True, ageRisk = 2, temp = NaN,
            tempValid = False, tempRisk = 0, bpValid = False, bpRisk = 0\<rparr>"
    by (simp add: risk_factors_def and_then_def js_def)
  have b: "risk_factors (Obj [(js ''age'', Str (js ''45''))])
     = Inr \<lparr>id' = Undefined, age = Fin 45, ageValid = True, ageRisk = 1, temp = NaN,
            tempValid = False, tempRisk = 0, bpValid = False, bpRisk = 0\<rparr>"
    using n45 by (simp add: risk_factors_def and_then_def js_def)
  have c: "risk_factors (Obj [(js ''age'', Num (Fin 39))])
     = Inr \<lparr>id' = Undefined, age = Fin 39, ageValid = True, ageRisk = 0, temp = NaN,
            tempValid = False, tempRisk = 0, bpValid = False, bpRisk = 0\<rparr>"
    by (simp add: risk_factors_def and_then_def js_def)
  have d: "risk_factors (Obj [(js ''age'', Str (js ''unknown''))])
     = Inr \<lparr>id' = Undefined, age = NaN, ageValid = False, ageRisk = 0, temp = NaN,
            tempValid = False, tempRisk = 0, bpValid = False, bpRisk = 0\<rparr>"
    using nan by (simp add: risk_factors_def and_then_def js_def)
  show ?thesis
    using age_risk_bands [OF a] age_risk_bands [OF b] age_risk_bands [OF c]
      age_risk_bands [OF d] a b c d
    by simp
qed

lemma StringToNumber_99_6: "StringToNumber (js ''99.6'') = lit_99_6"
proof -
  have "trim (js ''99.6'') = js ''99.6''"
    by (simp add: trim_def js_def isWhiteSpace_def)
  moreover have "parse_nondecimal (js ''99.6'') = None"
    by (simp add: parse_nondecimal_def js_def)
  moreover have "parse_decimal (js ''99.6'') = Some (round_double (996 / 10))"
    by (simp add: parse_decimal_def parse_unsigned_def parse_exponent_def js_def isDigit_def
        decimal_val_def pow10_def)
  ultimately show ?thesis
    by (simp add: StringToNumber_def lit_99_6_def js_def)
qed

text \<open>
  Claim C5. The temperature is valid exactly when \<^verbatim>\<open>Number(p.temperature)\<close> is finite.
  A valid temperature scores 2 from 101 on, 1 from the Number 99.6 to below 101 and 0
  below the Number 99.6; an invalid one scores 0. The Number 99.6 is the double
  \<open>3504363460047667 / 2^45\<close>, within \<open>2^-47\<close> of 99.6: it is what the literal of the
  source denotes and what the text \<^verbatim>\<open>99.6\<close> of a record coerces to.
\<close>

theorem temp_risk_bands:
  assumes "risk_factors p = Inr f"
  shows "(\<exists>v. get_prop p (js ''temperature'') = Inr v \<and> ToNumber v = Inr (temp f))
    \<and> (tempValid f \<longleftrightarrow> isFinite (temp f))
    \<and> lit_99_6 = Fin (3504363460047667 / 35184372088832)
    \<and> \<bar>(3504363460047667 / 35184372088832 :: rat) - 996 / 10\<bar> \<le> 1 / 2 ^ 47
    \<and> StringToNumber (js ''99.6'') = lit_99_6
    \<and> (\<forall>q. temp f = Fin q \<longrightarrow>
          tempValid f
          \<and> (101 \<le> q \<longrightarrow> tempRisk f = 2)
          \<and> (3504363460047667 / 35184372088832 \<le> q \<and> q < 101 \<longrightarrow> tempRisk f = 1)
          \<and> (q < 3504363460047667 / 35184372088832 \<longrightarrow> tempRisk f = 0))
    \<and> (\<not> isFinite (temp f) \<longrightarrow> tempRisk f = 0 \<and> \<not> tempValid f)"
proof -
  have "\<bar>(3504363460047667 / 35184372088832 :: rat) - 996 / 10\<bar> \<le> 1 / 2 ^ 47"
    by simp
  moreover have "(\<exists>v. get_prop p (js ''temperature'') = Inr v \<and> ToNumber v = Inr (temp f))
    \<and> (tempValid f \<longleftrightarrow> isFinite (temp f))
    \<and> (\<forall>q. temp f = Fin q \<longrightarrow>
          tempValid f
          \<and> (101 \<le> q \<longrightarrow> tempRisk f = 2)
          \<and> (3504363460047667 / 35184372088832 \<le> q \<and> q < 101 \<longrightarrow> tempRisk f = 1)
          \<and> (q < 3504363460047667 / 35184372088832 \<longrightarrow> tempRisk f = 0))
    \<and> (\<not> isFinite (temp f) \<longrightarrow> tempRisk f = 0 \<and> \<not> tempValid f)"
    using assms by (elim risk_factors_Inr) (auto simp: lit_99_6_val)
  ultimately show ?thesis
    using lit_99_6_val StringToNumber_99_6 by blast
qed

theorem temp_risk_bands_witness:
  "risk_factors (Obj [(js ''temperature'', Num (Fin 102))])
     = Inr \<lparr>id' = Undefined, age = NaN, ageValid = False, ageRisk = 0, temp = Fin 102,
            tempValid = True, tempRisk = 2, bpValid = False, bpRisk = 0\<rparr>
   \<and> risk_factors (Obj [(js ''temperature'', Str (js ''99.6''))])
     = Inr \<lparr>id' = Undefined, age = NaN, ageValid = False, ageRisk = 0,
            temp = Fin (3504363460047667 / 35184372088832),
            tempValid = True, tempRisk = 1, bpValid = False, bpRisk = 0\<rparr>
   \<and> risk_factors (Obj [(js ''temperature'', Num (Fin (995 / 10)))])
     = Inr \<lparr>id' = Undefined, age = NaN, ageValid = False, ageRisk = 0, temp = Fin (995 / 10),
            tempValid = True, tempRisk = 0, bpValid = False, bpRisk = 0\<rparr>
   \<and> risk_factors (Obj [(js ''temperature'', Num PosInf)])
     = Inr \<lparr>id' = Undefined, age = NaN, ageValid = False, ageRisk = 0, temp = PosInf,
            tempValid = False, tempRisk = 0, bpValid = False, bpRisk = 0\<rparr>"
proof -
  have a: "risk_factors (Obj [(js ''temperature'', Num (Fin 102))])
     = Inr \<lparr>id' = Undefined, age = NaN, ageValid = False, ageRisk = 0, temp = Fin 102,
            tempValid = True, tempRisk = 2, bpValid = False, bpRisk = 0\<rparr>"
    by (simp add: risk_factors_def and_then_def js_def lit_99_6_val)
  have b: "risk_factors (Obj [(js ''temperature'', Str (js ''99.6''))])
     = Inr \<lparr>id' = Undefined, age = NaN, ageValid = False, ageRisk = 0,
            temp = Fin (3504363460047667 / 35184372088832),
            tempValid = True, tempRisk = 1, bpValid = False, bpRisk = 0\<rparr>"
    using StringToNumber_99_6 by (simp add: risk_factors_def and_then_def js_def lit_99_6_val)
  have c: "risk_factors (Obj [(js ''temperature'', Num (Fin (995 / 10)))])
     = Inr \<lparr>id' = Undefined, age = NaN, ageValid = False, ageRisk = 0, temp = Fin (995 / 10),
            tempValid = True, tempRisk = 0, bpValid = False, bpRisk = 0\<rparr>"
    by (simp add: risk_factors_def and_then_def js_def lit_99_6_val)
  have d: "risk_factors (Obj [(js ''temperature'', Num PosInf)])
     = Inr \<lparr>id' = Undefined, age = NaN, ageValid = False, ageRisk = 0, temp = PosInf,
            tempValid = False, tempRisk = 0, bpValid = False, bpRisk = 0\<rparr>"
    by (simp add: risk_factors_def and_then_def js_def lit_99_6_val)
  show ?thesis
    using temp_risk_bands [OF a] temp_risk_bands [OF b] temp_risk_bands [OF c]
      temp_risk_bands [OF d] a b c d
    by simp
qed

lemma bp_score:
  assumes "list_all isDigit m1" and "length m1 = 2 \<or> length m1 = 3"
    and "list_all isDigit m2" and "length m2 = 2 \<or> length m2 = 3"
  shows "(let sys = StringToNumber m1; dia = StringToNumber m2
          in if js_ge sys (Fin 140) \<or> js_ge dia (Fin 90) then 3
             else if js_ge sys (Fin 130) \<or> js_ge dia (Fin 80) then 2
             else if js_ge sys (Fin 120) \<and> js_lt dia (Fin 80) then 1
             else 0)
       = (if 140 \<le> decimal_val m1 \<or> 90 \<le> decimal_val m2 then 3
          else if 130 \<le> decimal_val m1 \<or> 80 \<le> decimal_val m2 then 2
          else if 120 \<le> decimal_val m1 \<and> decimal_val m2 < 80 then 1
          else (0::nat))"
proof -
  have "m1 \<noteq> []" "length m1 \<le> 15" "m2 \<noteq> []" "length m2 \<le> 15"
    using assms(2,4) by auto
  then have "StringToNumber m1 = Fin (of_int (decimal_val m1))"
    and "StringToNumber m2 = Fin (of_int (decimal_val m2))"
    using assms(1,3) by (simp_all add: StringToNumber_digits)
  then show ?thesis
    by (simp add: Let_def)
qed

text \<open>
  Claim C2, as the code has it. The blood pressure is valid exactly when it is a string
  made of two runs of two or three decimal digits with a slash between them. For a valid
  one the score follows the four bands in their order, and the bands leave no case out.
  A systolic value from 120 to below 130 scores 2 with a diastolic value from 80 to below
  90, and 3 with a diastolic value from 90 on, by the first band.
\<close>

theorem bp_risk_bands:
  assumes "risk_factors p = Inr f"
  shows "\<exists>bp. get_prop p (js ''blood_pressure'') = Inr bp
    \<and> (bpValid f \<longleftrightarrow>
         (\<exists>m1 m2. bp = Str (m1 @ 0x2F # m2)
            \<and> list_all isDigit m1 \<and> (length m1 = 2 \<or> length m1 = 3)
            \<and> list_all isDigit m2 \<and> (length m2 = 2 \<or> length m2 = 3)))
    \<and> (\<forall>m1 m2 sys dia.
          bp = Str (m1 @ 0x2F # m2)
          \<and> list_all isDigit m1 \<and> (length m1 = 2 \<or> length m1 = 3)
          \<and> list_all isDigit m2 \<and> (length m2 = 2 \<or> length m2 = 3)
          \<and> sys = decimal_val m1 \<and> dia = decimal_val m2 \<longrightarrow>
            bpRisk f = (if 140 \<le> sys \<or> 90 \<le> dia then 3
                        else if 130 \<le> sys \<or> 80 \<le> dia then 2
                        else if 120 \<le> sys \<and> dia < 80 then 1
                        else 0)
            \<and> (\<not> (140 \<le> sys \<or> 90 \<le> dia) \<and> \<not> (130 \<le> sys \<or> 80 \<le> dia)
                 \<and> \<not> (120 \<le> sys \<and> dia < 80) \<longrightarrow> sys < 120 \<and> dia < 80)
            \<and> (120 \<le> sys \<and> sys < 130 \<and> 80 \<le> dia \<and> dia < 90 \<longrightarrow> bpRisk f = 2)
            \<and> (120 \<le> sys \<and> sys < 130 \<and> 90 \<le> dia \<longrightarrow> bpRisk f = 3))
    \<and> (\<not> bpValid f \<longrightarrow> bpRisk f = 0)"
proof -
  from assms obtain bp where g: "get_prop p (js ''blood_pressure'') = Inr bp"
    and v: "bpValid f = (case bp of Str s \<Rightarrow> bp_match s \<noteq> None | _ \<Rightarrow> False)"
    and r: "bpRisk f = (case (case bp of Str s \<Rightarrow> bp_match s | _ \<Rightarrow> None) of
                   None \<Rightarrow> 0
                 | Some (m1, m2) \<Rightarrow>
                     let sys = StringToNumber m1; dia = StringToNumber m2
                     in if js_ge sys (Fin 140) \<or> js_ge dia (Fin 90) then 3
                        else if js_ge sys (Fin 130) \<or> js_ge dia (Fin 80) then 2
                        else if js_ge sys (Fin 120) \<and> js_lt dia (Fin 80) then 1
                        else 0)"
    by (elim risk_factors_Inr)
  have valid: "bpValid f \<longleftrightarrow>
         (\<exists>m1 m2. bp = Str (m1 @ 0x2F # m2)
            \<and> list_all isDigit m1 \<and> (length m1 = 2 \<or> length m1 = 3)
            \<and> list_all isDigit m2 \<and> (length m2 = 2 \<or> length m2 = 3))"
  proof
    assume "bpValid f"
    then obtain s m1 m2 where "bp = Str s" and "bp_match s = Some (m1, m2)"
      using v by (auto split: jsvalue.splits)
    then show "\<exists>m1 m2. bp = Str (m1 @ 0x2F # m2)
            \<and> list_all isDigit m1 \<and> (length m1 = 2 \<or> length m1 = 3)
            \<and> list_all isDigit m2 \<and> (length m2 = 2 \<or> length m2 = 3)"
      using bp_match_sound by blast
  next
    assume "\<exists>m1 m2. bp = Str (m1 @ 0x2F # m2)
            \<and> list_all isDigit m1 \<and> (length m1 = 2 \<or> length m1 = 3)
            \<and> list_all isDigit m2 \<and> (length m2 = 2 \<or> length m2 = 3)"
    then show "bpValid f"
      using v by (auto simp: bp_match_complete)
  qed
  have bands: "bpRisk f = (if 140 \<le> decimal_val m1 \<or> 90 \<le> decimal_val m2 then 3
                        else if 130 \<le> decimal_val m1 \<or> 80 \<le> decimal_val m2 then 2
                        else if 120 \<le> decimal_val m1 \<and> decimal_val m2 < 80 then 1
                        else 0)"
    if "bp = Str (m1 @ 0x2F # m2)" "list_all isDigit m1" "length m1 = 2 \<or> length m1 = 3"
      "list_all isDigit m2" "length m2 = 2 \<or> length m2 = 3" for m1 m2
  proof -
    have "bp_match (m1 @ 0x2F # m2) = Some (m1, m2)"
      using that by (simp add: bp_match_complete)
    then show ?thesis
      using r that(1) bp_score [OF that(2-5)] by simp
  qed
  have invalid: "\<not> bpValid f \<longrightarrow> bpRisk f = 0"
    using v r by (cases bp) (auto split: option.splits)
  have all: "\<forall>m1 m2 sys dia.
          bp = Str (m1 @ 0x2F # m2)
          \<and> list_all isDigit m1 \<and> (length m1 = 2 \<or> length m1 = 3)
          \<and> list_all isDigit m2 \<and> (length m2 = 2 \<or> length m2 = 3)
          \<and> sys = decimal_val m1 \<and> dia = decimal_val m2 \<longrightarrow>
            bpRisk f = (if 140 \<le> sys \<or> 90 \<le> dia then 3
                        else if 130 \<le> sys \<or> 80 \<le> dia then 2
                        else if 120 \<le> sys \<and> dia < 80 then 1
                        else 0)
            \<and> (\<not> (140 \<le> sys \<or> 90 \<le> dia) \<and> \<not> (130 \<le> sys \<or> 80 \<le> dia)
                 \<and> \<not> (120 \<le> sys \<and> dia < 80) \<longrightarrow> sys < 120 \<and> dia < 80)
            \<and> (120 \<le> sys \<and> sys < 130 \<and> 80 \<le> dia \<and> dia < 90 \<longrightarrow> bpRisk f = 2)
            \<and> (120 \<le> sys \<and> sys < 130 \<and> 90 \<le> dia \<longrightarrow> bpRisk f = 3)"
  proof (intro allI impI)
    fix m1 m2 sys dia
    assume h: "bp = Str (m1 @ 0x2F # m2)
          \<and> list_all isDigit m1 \<and> (length m1 = 2 \<or> length m1 = 3)
          \<and> list_all isDigit m2 \<and> (length m2 = 2 \<or> length m2 = 3)
          \<and> sys = decimal_val m1 \<and> dia = decimal_val m2"
    then have "bpRisk f = (if 140 \<le> sys \<or> 90 \<le> dia then 3
                        else if 130 \<le> sys \<or> 80 \<le> dia then 2
                        else if 120 \<le> sys \<and> dia < 80 then 1
                        else 0)"
      using bands [of m1 m2] by simp
    then show "bpRisk f = (if 140 \<le> sys \<or> 90 \<le> dia then 3
                        else if 130 \<le> sys \<or> 80 \<le> dia then 2
                        else if 120 \<le> sys \<and> dia < 80 then 1
                        else 0)
            \<and> (\<not> (140 \<le> sys \<or> 90 \<le> dia) \<and> \<not> (130 \<le> sys \<or> 80 \<le> dia)
                 \<and> \<not> (120 \<le> sys \<and> dia < 80) \<longrightarrow> sys < 120 \<and> dia < 80)
            \<and> (120 \<le> sys \<and> sys < 130 \<and> 80 \<le> dia \<and> dia < 90 \<longrightarrow> bpRisk f = 2)
            \<and> (120 \<le> sys \<and> sys < 130 \<and> 90 \<le> dia \<longrightarrow> bpRisk f = 3)"
      by auto
  qed
  show ?thesis
    using g valid all invalid by blast
qed

lemma bp_only:
  "risk_factors (Obj [(js ''blood_pressure'', Str (js ''150/95''))])
     = Inr \<lparr>id' = Undefined, age = NaN, ageValid = False, ageRisk = 0, temp = NaN,
            tempValid = False, tempRisk = 0, bpValid = True, bpRisk = 3\<rparr>"
  "risk_factors (Obj [(js ''blood_pressure'', Str (js ''125/85''))])
     = Inr \<lparr>id' = Undefined, age = NaN, ageValid = False, ageRisk = 0, temp = NaN,
            tempValid = False, tempRisk = 0, bpValid = True, bpRisk = 2\<rparr>"
  "risk_factors (Obj [(js ''blood_pressure'', Str (js ''122/75''))])
     = Inr \<lparr>id' = Undefined, age = NaN, ageValid = False, ageRisk = 0, temp = NaN,
            tempValid = False, tempRisk = 0, bpValid = True, bpRisk = 1\<rparr>"
  "risk_factors (Obj [(js ''blood_pressure'', Str (js ''110/70''))])
     = Inr \<lparr>id' = Undefined, age = NaN, ageValid = False, ageRisk = 0, temp = NaN,
            tempValid = False, tempRisk = 0, bpValid = True, bpRisk = 0\<rparr>"
  "risk_factors (Obj [(js ''blood_pressure'', Str (js ''abc/70''))])
     = Inr \<lparr>id' = Undefined, age = NaN, ageValid = False, ageRisk = 0, temp = NaN,
            tempValid = False, tempRisk = 0, bpValid = False, bpRisk = 0\<rparr>"
  "risk_factors (Obj [(js ''blood_pressure'', Num (Fin 120))])
     = Inr \<lparr>id' = Undefined, age = NaN, ageValid = False, ageRisk = 0, temp = NaN,
            tempValid = False, tempRisk = 0, bpValid = False, bpRisk = 0\<rparr>"
  "risk_factors (Obj [(js ''blood_pressure'', Str (js ''125/95''))])
     = Inr \<lparr>id' = Undefined, age = NaN, ageValid = False, ageRisk = 0, temp = NaN,
            tempValid = False, tempRisk = 0, bpValid = True, bpRisk = 3\<rparr>"
  by (simp_all add: risk_factors_def and_then_def js_def bp_match_def digits_2_3_def slash_def
      isDigit_def StringToNumber_digits decimal_val_def)

theorem bp_risk_bands_witness:
  "risk_factors (Obj [(js ''blood_pressure'', Str (js ''150/95''))])
     = Inr \<lparr>id' = Undefined, age = NaN, ageValid = False, ageRisk = 0, temp = NaN,
            tempValid = False, tempRisk = 0, bpValid = True, bpRisk = 3\<rparr>
   \<and> risk_factors (Obj [(js ''blood_pressure'', Str (js ''125/85''))])
     = Inr \<lparr>id' = Undefined, age = NaN, ageValid = False, ageRisk = 0, temp = NaN,
            tempValid = False, tempRisk = 0, bpValid = True, bpRisk = 2\<rparr>
   \<and> risk_factors (Obj [(js ''blood_pressure'', Str (js ''122/75''))])
     = Inr \<lparr>id' = Undefined, age = NaN, ageValid = False, ageRisk = 0, temp = NaN,
            tempValid = False, tempRisk = 0, bpValid = True, bpRisk = 1\<rparr>
   \<and> risk_factors (Obj [(js ''blood_pressure'', Str (js ''110/70''))])
     = Inr \<lparr>id' = Undefined, age = NaN, ageValid = False, ageRisk = 0, temp = NaN,
            tempValid = False, tempRisk = 0, bpValid = True, bpRisk = 0\<rparr>
   \<and> risk_factors (Obj [(js ''blood_pressure'', Str (js ''abc/70''))])
     = Inr \<lparr>id' = Undefined, age = NaN, ageValid = False, ageRisk = 0, temp = NaN,
            tempValid = False, tempRisk = 0, bpValid = False, bpRisk = 0\<rparr>
   \<and> js ''125/85'' = js ''125'' @ 0x2F # js ''85''
   \<and> list_all isDigit (js ''125'') \<and> list_all isDigit (js ''85'')
   \<and> decimal_val (js ''125'') = 125 \<and> decimal_val (js ''85'') = 85"
  using bp_risk_bands [OF bp_only(1)] bp_risk_bands [OF bp_only(2)] bp_risk_bands [OF bp_only(3)]
    bp_risk_bands [OF bp_only(4)] bp_risk_bands [OF bp_only(5)] bp_only
  by (simp add: js_def isDigit_def decimal_val_def)

theorem bp_example_counterexample:
  "risk_factors (Obj [(js ''blood_pressure'', Str (js ''125/95''))])
     = Inr \<lparr>id' = Undefined, age = NaN, ageValid = False, ageRisk = 0, temp = NaN,
            tempValid = False, tempRisk = 0, bpValid = True, bpRisk = 3\<rparr>
   \<and> js ''125/95'' = js ''125'' @ 0x2F # js ''95''
   \<and> decimal_val (js ''125'') = 125 \<and> decimal_val (js ''95'') = 95
   \<and> (120::int) \<le> 125 \<and> (125::int) < 130 \<and> (80::int) \<le> 95 \<and> (3::nat) \<noteq> 2"
  using bp_only(7) by (simp add: js_def decimal_val_def)

section \<open>The three lists\<close>

text \<open>
  The loop appends to each array the identifiers of the records that pass its test, in
  the order of the input; it returns exactly when the body returns for every record.
\<close>

lemma push_alerts_highRisk:
  "highRisk (push_alerts f b) = highRisk b @ (if 4 \<le> totalRisk f then [id' f] else [])"
  by (simp add: push_alerts_def Let_def)

lemma push_alerts_fever:
  "fever (push_alerts f b)
     = fever b @ (if tempValid f \<and> js_ge (temp f) lit_99_6 then [id' f] else [])"
  by (simp add: push_alerts_def Let_def)

lemma push_alerts_dataIssues:
  "dataIssues (push_alerts f b)
     = dataIssues b @ (if \<not> ageValid f \<or> \<not> tempValid f \<or> \<not> bpValid f then [id' f] else [])"
  by (auto simp: push_alerts_def Let_def)

lemma assess_loop_returns:
  assumes "list_all2 (\<lambda>p f. risk_factors p = Inr f) ps fs"
  shows "assess_loop ps b =
     Inr \<lparr>highRisk = highRisk b @ map id' (filter (\<lambda>f. 4 \<le> totalRisk f) fs),
          fever = fever b @ map id' (filter (\<lambda>f. tempValid f \<and> js_ge (temp f) lit_99_6) fs),
          dataIssues = dataIssues b
            @ map id' (filter (\<lambda>f. \<not> ageValid f \<or> \<not> tempValid f \<or> \<not> bpValid f) fs)\<rparr>"
  using assms
proof (induction ps fs arbitrary: b rule: list_all2_induct)
  case Nil
  then show ?case by simp
next
  case (Cons p f ps fs)
  show ?case
    by (simp add: Cons push_alerts_highRisk push_alerts_fever push_alerts_dataIssues)
qed

lemma assessPatients_returns:
  assumes "list_all2 (\<lambda>p f. risk_factors p = Inr f) ps fs"
  shows "assessPatients ps =
     Inr \<lparr>highRiskPatients = map id' (filter (\<lambda>f. 4 \<le> totalRisk f) fs),
          feverPatients = map id' (filter (\<lambda>f. tempValid f \<and> js_ge (temp f) lit_99_6) fs),
          dataQualityIssues =
            map id' (filter (\<lambda>f. \<not> ageValid f \<or> \<not> tempValid f \<or> \<not> bpValid f) fs)\<rparr>"
  by (simp add: assessPatients_def assess_loop_returns [OF assms])

lemma assess_loop_throws:
  assumes "list_all2 (\<lambda>p f. risk_factors p = Inr f) ps fs" and "risk_factors p = Inl e"
  shows "assess_loop (ps @ p # qs) b = Inl e"
  using assms(1)
proof (induction ps fs arbitrary: b rule: list_all2_induct)
  case Nil
  then show ?case by (simp add: assms(2))
next
  case (Cons p f ps fs)
  then show ?case by simp
qed

lemma invalid_scores_zero:
  assumes "risk_factors p = Inr f"
  shows "(\<not> ageValid f \<longrightarrow> ageRisk f = 0) \<and> (\<not> tempValid f \<longrightarrow> tempRisk f = 0)
    \<and> (\<not> bpValid f \<longrightarrow> bpRisk f = 0)"
proof -
  have "\<not> bpValid f \<longrightarrow> bpRisk f = 0"
    using assms by (elim risk_factors_Inr) (auto split: jsvalue.splits option.splits)
  moreover have "(\<not> ageValid f \<longrightarrow> ageRisk f = 0) \<and> (\<not> tempValid f \<longrightarrow> tempRisk f = 0)"
    using assms by (elim risk_factors_Inr) simp
  ultimately show ?thesis by simp
qed

lemma score_bounds:
  assumes "risk_factors p = Inr f"
  shows "ageRisk f \<le> 2 \<and> tempRisk f \<le> 2 \<and> bpRisk f \<le> 3"
proof -
  have "bpRisk f \<le> 3"
    using assms by (elim risk_factors_Inr) (auto simp: Let_def split: jsvalue.splits option.splits)
  moreover have "ageRisk f \<le> 2 \<and> tempRisk f \<le> 2"
    using assms by (elim risk_factors_Inr) simp
  ultimately show ?thesis by simp
qed

lemma assessPatients_throws:
  assumes "list_all2 (\<lambda>p f. risk_factors p = Inr f) ps fs" and "risk_factors p = Inl e"
  shows "assessPatients (ps @ p # qs) = Inl e"
  by (simp add: assessPatients_def assess_loop_throws [OF assms])

lemma assess_loop_Inr_D:
  "assess_loop ps b = Inr b' \<Longrightarrow> \<exists>fs. list_all2 (\<lambda>p f. risk_factors p = Inr f) ps fs"
proof (induction ps arbitrary: b)
  case Nil
  then show ?case by simp
next
  case (Cons p ps)
  then obtain f where f: "risk_factors p = Inr f" and "assess_loop ps (push_alerts f b) = Inr b'"
    by (cases "risk_factors p") auto
  then obtain fs where "list_all2 (\<lambda>p f. risk_factors p = Inr f) ps fs"
    using Cons.IH by blast
  with f have "list_all2 (\<lambda>p f. risk_factors p = Inr f) (p # ps) (f # fs)"
    by simp
  then show ?case ..
qed

lemma assessPatients_returns_iff:
  "(\<exists>r. assessPatients ps = Inr r) \<longleftrightarrow> (\<exists>fs. list_all2 (\<lambda>p f. risk_factors p = Inr f) ps fs)"
proof
  assume "\<exists>r. assessPatients ps = Inr r"
  then obtain b where "assess_loop ps \<lparr>highRisk = [], fever = [], dataIssues = []\<rparr> = Inr b"
    by (auto simp: assessPatients_def split: sum.splits)
  then show "\<exists>fs. list_all2 (\<lambda>p f. risk_factors p = Inr f) ps fs"
    by (rule assess_loop_Inr_D)
next
  assume "\<exists>fs. list_all2 (\<lambda>p f. risk_factors p = Inr f) ps fs"
  then show "\<exists>r. assessPatients ps = Inr r"
    using assessPatients_returns by blast
qed

lemma StringToNumber_unknown: "StringToNumber (js ''unknown'') = NaN"
  by (simp add: js_def StringToNumber_def trim_def isWhiteSpace_def parse_nondecimal_def
      parse_decimal_def parse_unsigned_def isDigit_def)

lemma StringToNumber_empty: "StringToNumber [] = Fin 0"
  by (simp add: StringToNumber_def trim_def)

lemma sample_records:
  "risk_factors (Obj [(js ''patient_id'', Str (js ''P1'')), (js ''age'', Num (Fin 70)),
      (js ''temperature'', Num (Fin 102)), (js ''blood_pressure'', Str (js ''150/95''))])
   = Inr \<lparr>id' = Str (js ''P1''), age = Fin 70, ageValid = True, ageRisk = 2,
        temp = Fin 102, tempValid = True, tempRisk = 2, bpValid = True, bpRisk = 3\<rparr>"
  "risk_factors (Obj [(js ''patient_id'', Str (js ''P2'')), (js ''age'', Str (js ''unknown'')),
      (js ''temperature'', Num (Fin 98)), (js ''blood_pressure'', Str (js ''110/70''))])
   = Inr \<lparr>id' = Str (js ''P2''), age = NaN, ageValid = False, ageRisk = 0,
        temp = Fin 98, tempValid = True, tempRisk = 0, bpValid = True, bpRisk = 0\<rparr>"
  "risk_factors (Obj [(js ''patient_id'', Str (js ''P3''))])
   = Inr \<lparr>id' = Str (js ''P3''), age = NaN, ageValid = False, ageRisk = 0,
        temp = NaN, tempValid = False, tempRisk = 0, bpValid = False, bpRisk = 0\<rparr>"
  "risk_factors (Obj [(js ''patient_id'', Str (js ''P4'')), (js ''age'', Null),
      (js ''temperature'', Str []), (js ''blood_pressure'', Str (js ''110/70''))])
   = Inr \<lparr>id' = Str (js ''P4''), age = Fin 0, ageValid = True, ageRisk = 0,
        temp = Fin 0, tempValid = True, tempRisk = 0, bpValid = True, bpRisk = 0\<rparr>"
  "risk_factors (Obj [(js ''patient_id'', Str (js ''P5'')), (js ''age'', Str []),
      (js ''temperature'', Null), (js ''blood_pressure'', Str (js ''110/70''))])
   = Inr \<lparr>id' = Str (js ''P5''), age = Fin 0, ageValid = True, ageRisk = 0,
        temp = Fin 0, tempValid = True, tempRisk = 0, bpValid = True, bpRisk = 0\<rparr>"
  "risk_factors (Obj [(js ''patient_id'', Str (js ''P6'')),
      (js ''temperature'', Num (Fin 98)), (js ''blood_pressure'', Str (js ''110/70''))])
   = Inr \<lparr>id' = Str (js ''P6''), age = NaN, ageValid = False, ageRisk = 0,
        temp = Fin 98, tempValid = True, tempRisk = 0, bpValid = True, bpRisk = 0\<rparr>"
  "risk_factors (Obj [(js ''patient_id'', Str (js ''P7'')), (js ''age'', Num (Fin 30)),
      (js ''blood_pressure'', Str (js ''110/70''))])
   = Inr \<lparr>id' = Str (js ''P7''), age = Fin 30, ageValid = True, ageRisk = 0,
        temp = NaN, tempValid = False, tempRisk = 0, bpValid = True, bpRisk = 0\<rparr>"
  using StringToNumber_unknown StringToNumber_empty
  by (simp_all add: risk_factors_def and_then_def js_def bp_match_def digits_2_3_def slash_def
      isDigit_def StringToNumber_digits decimal_val_def lit_99_6_val)

text \<open>
  Claim C1. When the body of the loop completes for every record, \<^verbatim>\<open>assessPatients\<close>
  returns the three lists: the identifiers of the records whose total is at least 4, of
  those whose temperature is valid and at least the Number 99.6, and of those with an
  invalid component, each in the order of the input. An invalid component scores 0; a
  record with three invalid components has total 0 and satisfies only the last test.
\<close>

theorem assessPatients_classification:
  assumes "list_all2 (\<lambda>p f. risk_factors p = Inr f) patients fs"
  shows "assessPatients patients =
      Inr \<lparr>highRiskPatients = map id' (filter (\<lambda>f. 4 \<le> ageRisk f + tempRisk f + bpRisk f) fs),
           feverPatients = map id' (filter (\<lambda>f. tempValid f \<and> js_ge (temp f) lit_99_6) fs),
           dataQualityIssues =
             map id' (filter (\<lambda>f. \<not> ageValid f \<or> \<not> tempValid f \<or> \<not> bpValid f) fs)\<rparr>
    \<and> list_all2 (\<lambda>p f. get_prop p (js ''patient_id'') = Inr (id' f)) patients fs
    \<and> (\<forall>f \<in> set fs.
          (\<not> ageValid f \<longrightarrow> ageRisk f = 0) \<and> (\<not> tempValid f \<longrightarrow> tempRisk f = 0)
          \<and> (\<not> bpValid f \<longrightarrow> bpRisk f = 0)
          \<and> (\<not> ageValid f \<and> \<not> tempValid f \<and> \<not> bpValid f \<longrightarrow>
                ageRisk f + tempRisk f + bpRisk f = 0
                \<and> \<not> 4 \<le> ageRisk f + tempRisk f + bpRisk f
                \<and> \<not> (tempValid f \<and> js_ge (temp f) lit_99_6)))"
proof -
  have ids: "list_all2 (\<lambda>p f. get_prop p (js ''patient_id'') = Inr (id' f)) patients fs"
    using assms by (rule list_all2_mono) (erule risk_factors_Inr, simp)
  have zero: "(\<not> ageValid f \<longrightarrow> ageRisk f = 0) \<and> (\<not> tempValid f \<longrightarrow> tempRisk f = 0)
      \<and> (\<not> bpValid f \<longrightarrow> bpRisk f = 0)" if "f \<in> set fs" for f
  proof -
    from that assms obtain p where "risk_factors p = Inr f"
      by (auto simp: in_set_conv_nth list_all2_conv_all_nth)
    then show ?thesis
      by (rule invalid_scores_zero)
  qed
  have "\<forall>f \<in> set fs.
          (\<not> ageValid f \<longrightarrow> ageRisk f = 0) \<and> (\<not> tempValid f \<longrightarrow> tempRisk f = 0)
          \<and> (\<not> bpValid f \<longrightarrow> bpRisk f = 0)
          \<and> (\<not> ageValid f \<and> \<not> tempValid f \<and> \<not> bpValid f \<longrightarrow>
                ageRisk f + tempRisk f + bpRisk f = 0
                \<and> \<not> 4 \<le> ageRisk f + tempRisk f + bpRisk f
                \<and> \<not> (tempValid f \<and> js_ge (temp f) lit_99_6))"
    using zero by auto
  then show ?thesis
    using assessPatients_returns [OF assms] ids by (simp add: totalRisk_def)
qed

theorem assessPatients_classification_witness:
  "assessPatients
     [Obj [(js ''patient_id'', Str (js ''P1'')), (js ''age'', Num (Fin 70)),
        (js ''temperature'', Num (Fin 102)), (js ''blood_pressure'', Str (js ''150/95''))],
      Obj [(js ''patient_id'', Str (js ''P2'')), (js ''age'', Str (js ''unknown'')),
        (js ''temperature'', Num (Fin 98)), (js ''blood_pressure'', Str (js ''110/70''))],
      Obj [(js ''patient_id'', Str (js ''P3''))]]
   = Inr \<lparr>highRiskPatients = [Str (js ''P1'')], feverPatients = [Str (js ''P1'')],
          dataQualityIssues = [Str (js ''P2''), Str (js ''P3'')]\<rparr>"
proof -
  have "list_all2 (\<lambda>p f. risk_factors p = Inr f)
     [Obj [(js ''patient_id'', Str (js ''P1'')), (js ''age'', Num (Fin 70)),
        (js ''temperature'', Num (Fin 102)), (js ''blood_pressure'', Str (js ''150/95''))],
      Obj [(js ''patient_id'', Str (js ''P2'')), (js ''age'', Str (js ''unknown'')),
        (js ''temperature'', Num (Fin 98)), (js ''blood_pressure'', Str (js ''110/70''))],
      Obj [(js ''patient_id'', Str (js ''P3''))]]
     [\<lparr>id' = Str (js ''P1''), age = Fin 70, ageValid = True, ageRisk = 2,
        temp = Fin 102, tempValid = True, tempRisk = 2, bpValid = True, bpRisk = 3\<rparr>,
      \<lparr>id' = Str (js ''P2''), age = NaN, ageValid = False, ageRisk = 0,
        temp = Fin 98, tempValid = True, tempRisk = 0, bpValid = True, bpRisk = 0\<rparr>,
      \<lparr>id' = Str (js ''P3''), age = NaN, ageValid = False, ageRisk = 0,
        temp = NaN, tempValid = False, tempRisk = 0, bpValid = False, bpRisk = 0\<rparr>]"
    by (simp only: list_all2_Cons list_all2_Nil sample_records simp_thms)
  from assessPatients_classification [OF this] show ?thesis
    by (simp add: lit_99_6_val)
qed

text \<open>
  Claim C3, as the code has it. Each list is a subsequence of the identifiers of the
  input, in the order of the input, a record giving its identifier at most once to each
  list. Nothing removes a repeated identifier: the lists are free of duplicates when the
  identifiers of the input are.
\<close>

theorem alert_lists_in_input_order:
  assumes "list_all2 (\<lambda>p f. risk_factors p = Inr f) patients fs"
  shows "\<exists>r. assessPatients patients = Inr r
    \<and> list_all2 (\<lambda>p i. get_prop p (js ''patient_id'') = Inr i) patients (map id' fs)
    \<and> subseq (highRiskPatients r) (map id' fs)
    \<and> subseq (feverPatients r) (map id' fs)
    \<and> subseq (dataQualityIssues r) (map id' fs)
    \<and> (distinct (map id' fs) \<longrightarrow>
          distinct (highRiskPatients r) \<and> distinct (feverPatients r)
          \<and> distinct (dataQualityIssues r))"
proof -
  have "list_all2 (\<lambda>p f. get_prop p (js ''patient_id'') = Inr (id' f)) patients fs"
    using assms by (rule list_all2_mono) (erule risk_factors_Inr, simp)
  then have ids: "list_all2 (\<lambda>p i. get_prop p (js ''patient_id'') = Inr i) patients (map id' fs)"
    by (simp add: list_all2_map2)
  have sub: "subseq (map id' (filter P fs)) (map id' fs)" for P
    by (simp add: subseq_map)
  have dis: "distinct (map id' fs) \<longrightarrow> distinct (map id' (filter P fs))" for P
    by (simp add: distinct_map_filter)
  show ?thesis
    using assessPatients_returns [OF assms] ids sub dis by simp
qed

theorem alert_lists_in_input_order_witness:
  "assessPatients
     [Obj [(js ''patient_id'', Str (js ''P1'')), (js ''age'', Num (Fin 70)),
        (js ''temperature'', Num (Fin 102)), (js ''blood_pressure'', Str (js ''150/95''))],
      Obj [(js ''patient_id'', Str (js ''P2'')), (js ''age'', Str (js ''unknown'')),
        (js ''temperature'', Num (Fin 98)), (js ''blood_pressure'', Str (js ''110/70''))],
      Obj [(js ''patient_id'', Str (js ''P3''))]]
     = Inr \<lparr>highRiskPatients = [Str (js ''P1'')], feverPatients = [Str (js ''P1'')],
          dataQualityIssues = [Str (js ''P2''), Str (js ''P3'')]\<rparr>
   \<and> distinct [Str (js ''P1''), Str (js ''P2''), Str (js ''P3'')]
   \<and> subseq [Str (js ''P2''), Str (js ''P3'')] [Str (js ''P1''), Str (js ''P2''), Str (js ''P3'')]"
proof -
  have "list_all2 (\<lambda>p f. risk_factors p = Inr f)
     [Obj [(js ''patient_id'', Str (js ''P1'')), (js ''age'', Num (Fin 70)),
        (js ''temperature'', Num (Fin 102)), (js ''blood_pressure'', Str (js ''150/95''))],
      Obj [(js ''patient_id'', Str (js ''P2'')), (js ''age'', Str (js ''unknown'')),
        (js ''temperature'', Num (Fin 98)), (js ''blood_pressure'', Str (js ''110/70''))],
      Obj [(js ''patient_id'', Str (js ''P3''))]]
     [\<lparr>id' = Str (js ''P1''), age = Fin 70, ageValid = True, ageRisk = 2,
        temp = Fin 102, tempValid = True, tempRisk = 2, bpValid = True, bpRisk = 3\<rparr>,
      \<lparr>id' = Str (js ''P2''), age = NaN, ageValid = False, ageRisk = 0,
        temp = Fin 98, tempValid = True, tempRisk = 0, bpValid = True, bpRisk = 0\<rparr>,
      \<lparr>id' = Str (js ''P3''), age = NaN, ageValid = False, ageRisk = 0,
        temp = NaN, tempValid = False, tempRisk = 0, bpValid = False, bpRisk = 0\<rparr>]"
    by (simp only: list_all2_Cons list_all2_Nil sample_records simp_thms)
  from alert_lists_in_input_order [OF this] assessPatients_returns [OF this] show ?thesis
    by (simp add: lit_99_6_val totalRisk_def js_def)
qed

theorem alert_lists_duplicate_counterexample:
  "assessPatients
     [Obj [(js ''patient_id'', Str (js ''P1'')), (js ''age'', Num (Fin 70)),
        (js ''temperature'', Num (Fin 102)), (js ''blood_pressure'', Str (js ''150/95''))],
      Obj [(js ''patient_id'', Str (js ''P1'')), (js ''age'', Num (Fin 70)),
        (js ''temperature'', Num (Fin 102)), (js ''blood_pressure'', Str (js ''150/95''))]]
     = Inr \<lparr>highRiskPatients = [Str (js ''P1''), Str (js ''P1'')],
          feverPatients = [Str (js ''P1''), Str (js ''P1'')],
          dataQualityIssues = []\<rparr>
   \<and> \<not> distinct [Str (js ''P1''), Str (js ''P1'')]"
proof -
  have "list_all2 (\<lambda>p f. risk_factors p = Inr f)
     [Obj [(js ''patient_id'', Str (js ''P1'')), (js ''age'', Num (Fin 70)),
        (js ''temperature'', Num (Fin 102)), (js ''blood_pressure'', Str (js ''150/95''))],
      Obj [(js ''patient_id'', Str (js ''P1'')), (js ''age'', Num (Fin 70)),
        (js ''temperature'', Num (Fin 102)), (js ''blood_pressure'', Str (js ''150/95''))]]
     [\<lparr>id' = Str (js ''P1''), age = Fin 70, ageValid = True, ageRisk = 2,
        temp = Fin 102, tempValid = True, tempRisk = 2, bpValid = True, bpRisk = 3\<rparr>,
      \<lparr>id' = Str (js ''P1''), age = Fin 70, ageValid = True, ageRisk = 2,
        temp = Fin 102, tempValid = True, tempRisk = 2, bpValid = True, bpRisk = 3\<rparr>]"
    by (simp only: list_all2_Cons list_all2_Nil sample_records simp_thms)
  from assessPatients_returns [OF this] show ?thesis
    by (simp add: lit_99_6_val totalRisk_def)
qed

text \<open>
  Claim C10. A record whose identifier goes to the high-risk list has at least two valid
  components: a single score is at most 3, and an invalid component scores 0.
\<close>

theorem high_risk_needs_two_valid:
  assumes "list_all2 (\<lambda>p f. risk_factors p = Inr f) patients fs"
  shows "\<exists>r. assessPatients patients = Inr r
    \<and> highRiskPatients r = map id' (filter (\<lambda>f. 4 \<le> ageRisk f + tempRisk f + bpRisk f) fs)
    \<and> (\<forall>f \<in> set fs. ageRisk f \<le> 2 \<and> tempRisk f \<le> 2 \<and> bpRisk f \<le> 3)
    \<and> (\<forall>f \<in> set (filter (\<lambda>f. 4 \<le> ageRisk f + tempRisk f + bpRisk f) fs).
          (ageValid f \<and> tempValid f) \<or> (ageValid f \<and> bpValid f) \<or> (tempValid f \<and> bpValid f))"
proof -
  have each: "ageRisk f \<le> 2 \<and> tempRisk f \<le> 2 \<and> bpRisk f \<le> 3
      \<and> (\<not> ageValid f \<longrightarrow> ageRisk f = 0) \<and> (\<not> tempValid f \<longrightarrow> tempRisk f = 0)
      \<and> (\<not> bpValid f \<longrightarrow> bpRisk f = 0)" if "f \<in> set fs" for f
  proof -
    from that assms obtain p where "risk_factors p = Inr f"
      by (auto simp: in_set_conv_nth list_all2_conv_all_nth)
    then show ?thesis
      using score_bounds invalid_scores_zero by blast
  qed
  have two: "(ageValid f \<and> tempValid f) \<or> (ageValid f \<and> bpValid f) \<or> (tempValid f \<and> bpValid f)"
    if "f \<in> set fs" and "4 \<le> ageRisk f + tempRisk f + bpRisk f" for f
    using each [OF that(1)] that(2) by (cases "ageValid f"; cases "tempValid f"; cases "bpValid f"; simp)
  show ?thesis
    using assessPatients_returns [OF assms] each two by (simp add: totalRisk_def)
qed

theorem high_risk_needs_two_valid_witness:
  "assessPatients
     [Obj [(js ''patient_id'', Str (js ''P1'')), (js ''age'', Num (Fin 70)),
        (js ''temperature'', Num (Fin 102)), (js ''blood_pressure'', Str (js ''150/95''))],
      Obj [(js ''patient_id'', Str (js ''P3''))]]
     = Inr \<lparr>highRiskPatients = [Str (js ''P1'')], feverPatients = [Str (js ''P1'')],
          dataQualityIssues = [Str (js ''P3'')]\<rparr>"
proof -
  have "list_all2 (\<lambda>p f. risk_factors p = Inr f)
     [Obj [(js ''patient_id'', Str (js ''P1'')), (js ''age'', Num (Fin 70)),
        (js ''temperature'', Num (Fin 102)), (js ''blood_pressure'', Str (js ''150/95''))],
      Obj [(js ''patient_id'', Str (js ''P3''))]]
     [\<lparr>id' = Str (js ''P1''), age = Fin 70, ageValid = True, ageRisk = 2,
        temp = Fin 102, tempValid = True, tempRisk = 2, bpValid = True, bpRisk = 3\<rparr>,
      \<lparr>id' = Str (js ''P3''), age = NaN, ageValid = False, ageRisk = 0,
        temp = NaN, tempValid = False, tempRisk = 0, bpValid = False, bpRisk = 0\<rparr>]"
    by (simp only: list_all2_Cons list_all2_Nil sample_records simp_thms)
  from high_risk_needs_two_valid [OF this] assessPatients_returns [OF this] show ?thesis
    by (simp add: lit_99_6_val totalRisk_def)
qed

section \<open>Null, empty and absent fields\<close>

lemma age_coerced:
  assumes "risk_factors p = Inr f" and "get_prop p (js ''age'') = Inr v" and "ToNumber v = Inr a"
  shows "age f = a \<and> ageValid f = isFinite a
    \<and> ageRisk f = (if isFinite a then (if js_ge a (Fin 66) then 2 else if js_ge a (Fin 40) then 1 else 0)
                   else 0)"
proof -
  from assms(1) obtain va a' where "get_prop p (js ''age'') = Inr va" "ToNumber va = Inr a'"
    "age f = a'" "ageValid f = isFinite a'"
    "ageRisk f = (if isFinite a' then (if js_ge a' (Fin 66) then 2 else if js_ge a' (Fin 40) then 1 else 0)
                  else 0)"
    by (elim risk_factors_Inr)
  moreover from this assms(2,3) have "a' = a"
    by simp
  ultimately show ?thesis
    by simp
qed

lemma temp_coerced:
  assumes "risk_factors p = Inr f" and "get_prop p (js ''temperature'') = Inr v"
    and "ToNumber v = Inr t"
  shows "temp f = t \<and> tempValid f = isFinite t
    \<and> tempRisk f = (if isFinite t then (if js_ge t (Fin 101) then 2 else if js_ge t lit_99_6 then 1 else 0)
                    else 0)"
proof -
  from assms(1) obtain vt t' where "get_prop p (js ''temperature'') = Inr vt"
    "ToNumber vt = Inr t'" "temp f = t'" "tempValid f = isFinite t'"
    "tempRisk f = (if isFinite t' then (if js_ge t' (Fin 101) then 2 else if js_ge t' lit_99_6 then 1 else 0)
                   else 0)"
    by (elim risk_factors_Inr)
  moreover from this assms(2,3) have "t' = t"
    by simp
  ultimately show ?thesis
    by simp
qed

text \<open>
  Claim C9. \<^verbatim>\<open>Number(null)\<close> and \<^verbatim>\<open>Number("")\<close> are 0 and \<^verbatim>\<open>Number(undefined)\<close> is
  NaN. So an age that is \<^verbatim>\<open>null\<close> or the empty string is valid with score 0, and alone
  does not send the record to the data-quality list; such a temperature is a valid 0,
  below the fever threshold; an absent field is invalid and sends the record there.
\<close>

theorem null_and_empty_are_zero:
  "ToNumber Null = Inr (Fin 0) \<and> ToNumber (Str []) = Inr (Fin 0) \<and> ToNumber Undefined = Inr NaN
   \<and> (risk_factors p = Inr f \<and> get_prop p (js ''age'') = Inr v \<and> (v = Null \<or> v = Str []) \<longrightarrow>
        age f = Fin 0 \<and> ageValid f \<and> ageRisk f = 0
        \<and> (tempValid f \<and> bpValid f \<longrightarrow> dataIssues (push_alerts f b) = dataIssues b))
   \<and> (risk_factors p = Inr f \<and> get_prop p (js ''temperature'') = Inr v \<and> (v = Null \<or> v = Str [])
        \<longrightarrow>
        temp f = Fin 0 \<and> tempValid f \<and> tempRisk f = 0 \<and> \<not> js_ge (temp f) lit_99_6
        \<and> \<not> js_ge (temp f) (Fin 101)
        \<and> fever (push_alerts f b) = fever b
        \<and> (ageValid f \<and> bpValid f \<longrightarrow> dataIssues (push_alerts f b) = dataIssues b))
   \<and> (risk_factors p = Inr f \<and> get_prop p (js ''age'') = Inr Undefined \<longrightarrow>
        age f = NaN \<and> \<not> ageValid f \<and> ageRisk f = 0
        \<and> dataIssues (push_alerts f b) = dataIssues b @ [id' f])
   \<and> (risk_factors p = Inr f \<and> get_prop p (js ''temperature'') = Inr Undefined \<longrightarrow>
        temp f = NaN \<and> \<not> tempValid f \<and> tempRisk f = 0
        \<and> fever (push_alerts f b) = fever b
        \<and> dataIssues (push_alerts f b) = dataIssues b @ [id' f])"
proof -
  have zero: "ToNumber v = Inr (Fin 0)" if "v = Null \<or> v = Str []"
    using that by (auto simp: StringToNumber_empty)
  have "risk_factors p = Inr f \<and> get_prop p (js ''age'') = Inr v \<and> (v = Null \<or> v = Str []) \<longrightarrow>
        age f = Fin 0 \<and> ageValid f \<and> ageRisk f = 0
        \<and> (tempValid f \<and> bpValid f \<longrightarrow> dataIssues (push_alerts f b) = dataIssues b)"
    using age_coerced [of p f v "Fin 0"] zero by (simp add: push_alerts_dataIssues)
  moreover
  have "risk_factors p = Inr f \<and> get_prop p (js ''temperature'') = Inr v
        \<and> (v = Null \<or> v = Str []) \<longrightarrow>
        temp f = Fin 0 \<and> tempValid f \<and> tempRisk f = 0 \<and> \<not> js_ge (temp f) lit_99_6
        \<and> \<not> js_ge (temp f) (Fin 101)
        \<and> fever (push_alerts f b) = fever b
        \<and> (ageValid f \<and> bpValid f \<longrightarrow> dataIssues (push_alerts f b) = dataIssues b)"
    using temp_coerced [of p f v "Fin 0"] zero
    by (simp add: push_alerts_dataIssues push_alerts_fever lit_99_6_val)
  moreover
  have "risk_factors p = Inr f \<and> get_prop p (js ''age'') = Inr Undefined \<longrightarrow>
        age f = NaN \<and> \<not> ageValid f \<and> ageRisk f = 0
        \<and> dataIssues (push_alerts f b) = dataIssues b @ [id' f]"
    using age_coerced [of p f Undefined NaN] by (simp add: push_alerts_dataIssues)
  moreover
  have "risk_factors p = Inr f \<and> get_prop p (js ''temperature'') = Inr Undefined \<longrightarrow>
        temp f = NaN \<and> \<not> tempValid f \<and> tempRisk f = 0
        \<and> fever (push_alerts f b) = fever b
        \<and> dataIssues (push_alerts f b) = dataIssues b @ [id' f]"
    using temp_coerced [of p f Undefined NaN]
    by (simp add: push_alerts_dataIssues push_alerts_fever)
  ultimately show ?thesis
    by (simp add: StringToNumber_empty lit_99_6_val)
qed

theorem null_and_empty_are_zero_witness:
  "risk_factors (Obj [(js ''patient_id'', Str (js ''P4'')), (js ''age'', Null),
      (js ''temperature'', Str []), (js ''blood_pressure'', Str (js ''110/70''))])
     = Inr \<lparr>id' = Str (js ''P4''), age = Fin 0, ageValid = True, ageRisk = 0,
        temp = Fin 0, tempValid = True, tempRisk = 0, bpValid = True, bpRisk = 0\<rparr>
   \<and> dataIssues (push_alerts \<lparr>id' = Str (js ''P4''), age = Fin 0, ageValid = True, ageRisk = 0,
        temp = Fin 0, tempValid = True, tempRisk = 0, bpValid = True, bpRisk = 0\<rparr>
        \<lparr>highRisk = [], fever = [], dataIssues = []\<rparr>)
     = dataIssues \<lparr>highRisk = [], fever = [], dataIssues = []\<rparr>
   \<and> fever (push_alerts \<lparr>id' = Str (js ''P4''), age = Fin 0, ageValid = True, ageRisk = 0,
        temp = Fin 0, tempValid = True, tempRisk = 0, bpValid = True, bpRisk = 0\<rparr>
        \<lparr>highRisk = [], fever = [], dataIssues = []\<rparr>)
     = fever \<lparr>highRisk = [], fever = [], dataIssues = []\<rparr>
   \<and> risk_factors (Obj [(js ''patient_id'', Str (js ''P5'')), (js ''age'', Str []),
      (js ''temperature'', Null), (js ''blood_pressure'', Str (js ''110/70''))])
     = Inr \<lparr>id' = Str (js ''P5''), age = Fin 0, ageValid = True, ageRisk = 0,
        temp = Fin 0, tempValid = True, tempRisk = 0, bpValid = True, bpRisk = 0\<rparr>
   \<and> risk_factors (Obj [(js ''patient_id'', Str (js ''P7'')), (js ''age'', Num (Fin 30)),
      (js ''blood_pressure'', Str (js ''110/70''))])
     = Inr \<lparr>id' = Str (js ''P7''), age = Fin 30, ageValid = True, ageRisk = 0,
        temp = NaN, tempValid = False, tempRisk = 0, bpValid = True, bpRisk = 0\<rparr>
   \<and> dataIssues (push_alerts \<lparr>id' = Str (js ''P7''), age = Fin 30, ageValid = True, ageRisk = 0,
        temp = NaN, tempValid = False, tempRisk = 0, bpValid = True, bpRisk = 0\<rparr>
        \<lparr>highRisk = [], fever = [], dataIssues = []\<rparr>)
     = dataIssues \<lparr>highRisk = [], fever = [], dataIssues = []\<rparr>
       @ [id' \<lparr>id' = Str (js ''P7''), age = Fin 30, ageValid = True, ageRisk = 0,
        temp = NaN, tempValid = False, tempRisk = 0, bpValid = True, bpRisk = 0\<rparr>]
   \<and> risk_factors (Obj [(js ''patient_id'', Str (js ''P6'')),
      (js ''temperature'', Num (Fin 98)), (js ''blood_pressure'', Str (js ''110/70''))])
     = Inr \<lparr>id' = Str (js ''P6''), age = NaN, ageValid = False, ageRisk = 0,
        temp = Fin 98, tempValid = True, tempRisk = 0, bpValid = True, bpRisk = 0\<rparr>
   \<and> dataIssues (push_alerts \<lparr>id' = Str (js ''P6''), age = NaN, ageValid = False, ageRisk = 0,
        temp = Fin 98, tempValid = True, tempRisk = 0, bpValid = True, bpRisk = 0\<rparr>
        \<lparr>highRisk = [], fever = [], dataIssues = []\<rparr>)
     = dataIssues \<lparr>highRisk = [], fever = [], dataIssues = []\<rparr>
       @ [id' \<lparr>id' = Str (js ''P6''), age = NaN, ageValid = False, ageRisk = 0,
        temp = Fin 98, tempValid = True, tempRisk = 0, bpValid = True, bpRisk = 0\<rparr>]"
proof -
  let ?b = "\<lparr>highRisk = [], fever = [], dataIssues = []\<rparr>"
  let ?P4 = "Obj [(js ''patient_id'', Str (js ''P4'')), (js ''age'', Null),
      (js ''temperature'', Str []), (js ''blood_pressure'', Str (js ''110/70''))]"
  let ?F4 = "\<lparr>id' = Str (js ''P4''), age = Fin 0, ageValid = True, ageRisk = 0,
        temp = Fin 0, tempValid = True, tempRisk = 0, bpValid = True, bpRisk = 0\<rparr>"
  let ?P6 = "Obj [(js ''patient_id'', Str (js ''P6'')),
      (js ''temperature'', Num (Fin 98)), (js ''blood_pressure'', Str (js ''110/70''))]"
  let ?F6 = "\<lparr>id' = Str (js ''P6''), age = NaN, ageValid = False, ageRisk = 0,
        temp = Fin 98, tempValid = True, tempRisk = 0, bpValid = True, bpRisk = 0\<rparr>"
  let ?P5 = "Obj [(js ''patient_id'', Str (js ''P5'')), (js ''age'', Str []),
      (js ''temperature'', Null), (js ''blood_pressure'', Str (js ''110/70''))]"
  let ?F5 = "\<lparr>id' = Str (js ''P5''), age = Fin 0, ageValid = True, ageRisk = 0,
        temp = Fin 0, tempValid = True, tempRisk = 0, bpValid = True, bpRisk = 0\<rparr>"
  let ?P7 = "Obj [(js ''patient_id'', Str (js ''P7'')), (js ''age'', Num (Fin 30)),
      (js ''blood_pressure'', Str (js ''110/70''))]"
  let ?F7 = "\<lparr>id' = Str (js ''P7''), age = Fin 30, ageValid = True, ageRisk = 0,
        temp = NaN, tempValid = False, tempRisk = 0, bpValid = True, bpRisk = 0\<rparr>"
  have r4: "risk_factors ?P4 = Inr ?F4" and r6: "risk_factors ?P6 = Inr ?F6"
    and r5: "risk_factors ?P5 = Inr ?F5" and r7: "risk_factors ?P7 = Inr ?F7"
    by (rule sample_records)+
  have g5: "get_prop ?P5 (js ''age'') = Inr (Str [])" "get_prop ?P5 (js ''temperature'') = Inr Null"
    "get_prop ?P7 (js ''temperature'') = Inr Undefined"
    by (simp_all add: js_def)
  have "age ?F5 = Fin 0"
    using null_and_empty_are_zero [of ?P5 ?F5 "Str []" ?b] r5 g5(1) by blast
  have "temp ?F5 = Fin 0"
    using null_and_empty_are_zero [of ?P5 ?F5 Null ?b] r5 g5(2) by blast
  have d: "dataIssues (push_alerts ?F7 ?b) = dataIssues ?b @ [id' ?F7]"
    using null_and_empty_are_zero [of ?P7 ?F7 Undefined ?b] r7 g5(3) by blast
  have g: "get_prop ?P4 (js ''age'') = Inr Null" "get_prop ?P4 (js ''temperature'') = Inr (Str [])"
    "get_prop ?P6 (js ''age'') = Inr Undefined"
    by (simp_all add: js_def)
  have v: "tempValid ?F4 \<and> bpValid ?F4"
    by simp
  have a: "dataIssues (push_alerts ?F4 ?b) = dataIssues ?b"
    using null_and_empty_are_zero [of ?P4 ?F4 Null ?b] r4 g(1) v by blast
  have b: "fever (push_alerts ?F4 ?b) = fever ?b"
    using null_and_empty_are_zero [of ?P4 ?F4 "Str []" ?b] r4 g(2) by blast
  have c: "dataIssues (push_alerts ?F6 ?b) = dataIssues ?b @ [id' ?F6]"
    using null_and_empty_are_zero [of ?P6 ?F6 Undefined ?b] r6 g(3) by blast
  show ?thesis
    using r4 r5 r6 r7 a b c d by blast
qed

section \<open>Retrying a request\<close>

lemma fetchWithRetry_unfold:
  "fetchWithRetry client req s =
     (case client req (fst s) of
        (NetworkFailure, w) \<Rightarrow> Some (Inl NetworkError, (w, snd s @ [Fetch req]))
      | (Response status body, w) \<Rightarrow>
          if status = 429
          then fetchWithRetry client req (w, snd s @ [Fetch req, Wait 15000])
          else if status = 500 \<or> status = 503
          then fetchWithRetry client req (w, snd s @ [Fetch req, Wait 1000])
          else if \<not> ok status then Some (Inl (HttpError status), (w, snd s @ [Fetch req]))
          else (case body of
                  None \<Rightarrow> Some (Inl SyntaxError, (w, snd s @ [Fetch req]))
                | Some data \<Rightarrow> Some (Inr data, (w, snd s @ [Fetch req]))))"
  by (subst fetchWithRetry.simps)
    (simp add: fetch_def wait_def split: prod.splits fetch_result.splits)

text \<open>
  Claim C7. Against the responses 429, 500 and 200 with a JSON body, in this order,
  \<^verbatim>\<open>fetchWithRetry\<close> fetches three times with the same request, waits 15000 ms after the
  first answer and 1000 ms after the second, and returns the parsed body of the third.
\<close>

theorem fetchWithRetry_429_500_200:
  "fetchWithRetry script_client req
     (Response 429 b1 # Response 500 b2 # Response 200 (Some data) # rest, tr)
   = Some (Inr data, (rest, tr @ [Fetch req, Wait 15000, Fetch req, Wait 1000, Fetch req]))"
  apply (subst fetchWithRetry_unfold, simp add: script_client_def)
  apply (subst fetchWithRetry_unfold, simp add: script_client_def)
  apply (subst fetchWithRetry_unfold, simp add: script_client_def ok_def)
  done

theorem fetchWithRetry_429_500_200_witness:
  "fetchWithRetry script_client (page_request 1)
     ([Response 429 None, Response 500 None, Response 200 (Some (Obj [(js ''data'', Arr [])]))],
      [])
   = Some (Inr (Obj [(js ''data'', Arr [])]),
       ([], [Fetch (page_request 1), Wait 15000, Fetch (page_request 1), Wait 1000,
             Fetch (page_request 1)]))"
  using fetchWithRetry_429_500_200
    [of "page_request 1" None None "Obj [(js ''data'', Arr [])]" "[]" "[]"]
  by simp

section \<open>One page\<close>

lemma page_request_url:
  "url (page_request 1) = ''https://assessment.ksensetech.com/api/patients?page=1&limit=20''"
  "url (page_request 2) = ''https://assessment.ksensetech.com/api/patients?page=2&limit=20''"
  "url (page_request 3) = ''https://assessment.ksensetech.com/api/patients?page=3&limit=20''"
  by (simp_all add: page_request_def)

lemma fetchWithRetry_success:
  assumes "client req (fst s) = (Response status (Some data), w)" and "ok status"
  shows "fetchWithRetry client req s = Some (Inr data, (w, snd s @ [Fetch req]))"
  using assms by (subst fetchWithRetry_unfold) (auto simp: ok_def)

lemma script_page:
  "fetchWithRetry script_client req (Response 200 (Some data) # rest, tr)
     = Some (Inr data, (rest, tr @ [Fetch req]))"
  using fetchWithRetry_success [of script_client req "(Response 200 (Some data) # rest, tr)" 200 data rest]
  by (simp add: script_client_def ok_def)

lemma catch_page_body_Inr: "\<exists>xs. catch (page_body r) (\<lambda>err. Inr []) = Inr xs"
  by (cases "page_body r") (simp_all add: catch_def)

lemma page_body_error: "catch (page_body (Inl e)) (\<lambda>err. Inr []) = Inr []"
  by (simp add: catch_def page_body_def and_then_def)

lemma page_body_array:
  assumes "get_prop payload (js ''data'') = Inr (Arr xs)"
  shows "catch (page_body (Inr payload)) (\<lambda>err. Inr []) = Inr xs"
  using assms by (simp add: catch_def page_body_def and_then_def)

lemma page_body_no_array:
  assumes "\<forall>xs. get_prop payload (js ''data'') \<noteq> Inr (Arr xs)"
  shows "catch (page_body (Inr payload)) (\<lambda>err. Inr []) = Inr []"
proof (cases "get_prop payload (js ''data'')")
  case (Inl e)
  then show ?thesis
    by (simp add: catch_def page_body_def and_then_def)
next
  case (Inr d)
  with assms have "\<forall>xs. d \<noteq> Arr xs"
    by simp
  then show ?thesis
    using Inr by (cases d) (simp_all add: catch_def page_body_def and_then_def)
qed

lemma fetchWithRetry_hard_failure:
  assumes "client req (fst s) = (Response status body, w)"
    and "status \<noteq> 429" "status \<noteq> 500" "status \<noteq> 503" "\<not> ok status"
  shows "fetchWithRetry client req s = Some (Inl (HttpError status), (w, snd s @ [Fetch req]))"
  using assms by (subst fetchWithRetry_unfold) simp

lemma fetchWithRetry_parse_failure:
  assumes "client req (fst s) = (Response status None, w)" and "ok status"
  shows "fetchWithRetry client req s = Some (Inl SyntaxError, (w, snd s @ [Fetch req]))"
  using assms by (subst fetchWithRetry_unfold) (auto simp: ok_def)

text \<open>
  Claim C8. \<^verbatim>\<open>fetchPatientsPage\<close> never returns an error. A status that is neither
  retried nor a success makes \<^verbatim>\<open>fetchWithRetry\<close> throw at once, with the status, after
  that single request, and a success whose body is not JSON makes it throw too; whatever
  \<^verbatim>\<open>fetchWithRetry\<close> throws, the page is empty. It is empty as well when the payload
  has no array under \<^verbatim>\<open>data\<close>, and it is that array otherwise.
\<close>

theorem fetchPatientsPage_degrades_to_empty:
  "fetchPatientsPage client n s \<noteq> Some (Inl e, s')
   \<and> (client req (fst s) = (Response status body, w)
        \<and> status \<noteq> 429 \<and> status \<noteq> 500 \<and> status \<noteq> 503 \<and> \<not> ok status \<longrightarrow>
        fetchWithRetry client req s = Some (Inl (HttpError status), (w, snd s @ [Fetch req])))
   \<and> (client (page_request n) (fst s) = (Response status body, w)
        \<and> status \<noteq> 429 \<and> status \<noteq> 500 \<and> status \<noteq> 503 \<and> \<not> ok status \<longrightarrow>
        fetchPatientsPage client n s = Some (Inr [], (w, snd s @ [Fetch (page_request n)])))
   \<and> (client req (fst s) = (Response status None, w) \<and> ok status \<longrightarrow>
        fetchWithRetry client req s = Some (Inl SyntaxError, (w, snd s @ [Fetch req])))
   \<and> (client (page_request n) (fst s) = (Response status None, w) \<and> ok status \<longrightarrow>
        fetchPatientsPage client n s = Some (Inr [], (w, snd s @ [Fetch (page_request n)])))
   \<and> (fetchWithRetry client (page_request n) s = Some (Inl e, s') \<longrightarrow>
        fetchPatientsPage client n s = Some (Inr [], s'))
   \<and> (fetchWithRetry client (page_request n) s = Some (Inr payload, s')
        \<and> (\<forall>xs. get_prop payload (js ''data'') \<noteq> Inr (Arr xs)) \<longrightarrow>
        fetchPatientsPage client n s = Some (Inr [], s'))
   \<and> (fetchWithRetry client (page_request n) s = Some (Inr payload, s')
        \<and> get_prop payload (js ''data'') = Inr (Arr xs) \<longrightarrow>
        fetchPatientsPage client n s = Some (Inr xs, s'))"
proof -
  have never: "fetchPatientsPage client n s \<noteq> Some (Inl e, s')"
  proof (cases "fetchWithRetry client (page_request n) s")
    case None
    then show ?thesis by (simp add: fetchPatientsPage_def)
  next
    case (Some y)
    obtain r s1 where "y = (r, s1)"
      by (cases y)
    moreover obtain xs where "catch (page_body r) (\<lambda>err. Inr []) = Inr xs"
      using catch_page_body_Inr by blast
    ultimately show ?thesis
      using Some by (simp add: fetchPatientsPage_def)
  qed
  have hard: "fetchWithRetry client q s = Some (Inl (HttpError status), (w, snd s @ [Fetch q]))"
    if "client q (fst s) = (Response status body, w)
        \<and> status \<noteq> 429 \<and> status \<noteq> 500 \<and> status \<noteq> 503 \<and> \<not> ok status" for q
    using that by (simp add: fetchWithRetry_hard_failure)
  have parse: "fetchWithRetry client q s = Some (Inl SyntaxError, (w, snd s @ [Fetch q]))"
    if "client q (fst s) = (Response status None, w) \<and> ok status" for q
    using that by (simp add: fetchWithRetry_parse_failure)
  have thrown: "fetchPatientsPage client n s = Some (Inr [], s1)"
    if "fetchWithRetry client (page_request n) s = Some (Inl e1, s1)" for e1 s1
    using that by (simp add: fetchPatientsPage_def page_body_error)
  have no_array: "fetchPatientsPage client n s = Some (Inr [], s')"
    if "fetchWithRetry client (page_request n) s = Some (Inr payload, s')
        \<and> (\<forall>xs. get_prop payload (js ''data'') \<noteq> Inr (Arr xs))"
    using that by (simp add: fetchPatientsPage_def page_body_no_array)
  have array: "fetchPatientsPage client n s = Some (Inr xs, s')"
    if "fetchWithRetry client (page_request n) s = Some (Inr payload, s')
        \<and> get_prop payload (js ''data'') = Inr (Arr xs)"
    using that by (simp add: fetchPatientsPage_def page_body_array)
  show ?thesis
    using never hard [of req] parse [of req] thrown [OF hard [of "page_request n"]]
      thrown [OF parse [of "page_request n"]] thrown [of e s'] no_array array
    by blast
qed

theorem fetchPatientsPage_degrades_to_empty_witness:
  "fetchWithRetry script_client (page_request 1) ([Response 404 None], [])
     = Some (Inl (HttpError 404), ([], [Fetch (page_request 1)]))
   \<and> fetchWithRetry script_client (page_request 1) ([Response 200 None], [])
     = Some (Inl SyntaxError, ([], [Fetch (page_request 1)]))
   \<and> fetchPatientsPage script_client 1 ([], [])
     = Some (Inr [], ([], [Fetch (page_request 1)]))
   \<and> fetchPatientsPage script_client 1 ([Response 404 None], [])
     = Some (Inr [], ([], [Fetch (page_request 1)]))
   \<and> fetchPatientsPage script_client 1 ([Response 200 None], [])
     = Some (Inr [], ([], [Fetch (page_request 1)]))
   \<and> fetchPatientsPage script_client 1 ([Response 200 (Some (Obj []))], [])
     = Some (Inr [], ([], [Fetch (page_request 1)]))
   \<and> fetchPatientsPage script_client 1
       ([Response 200 (Some (Obj [(js ''data'', Str (js ''none''))]))], [])
     = Some (Inr [], ([], [Fetch (page_request 1)]))
   \<and> fetchPatientsPage script_client 1 ([Response 200 (Some Null)], [])
     = Some (Inr [], ([], [Fetch (page_request 1)]))
   \<and> fetchPatientsPage script_client 1
       ([Response 200 (Some (Obj [(js ''data'', Arr [Num (Fin 1), Null])]))], [])
     = Some (Inr [Num (Fin 1), Null], ([], [Fetch (page_request 1)]))"
proof -
  let ?q = "page_request 1"
  let ?s' = "([] :: fetch_result list, [Fetch ?q])"
  have a: "fetchPatientsPage script_client 1 ([Response 404 None], []) = Some (Inr [], ?s')"
    using fetchPatientsPage_degrades_to_empty
      [where client = script_client and n = 1 and s = "([Response 404 None], [])"
        and status = 404 and body = None and w = "[]"]
    by (simp add: script_client_def ok_def)
  have b: "fetchPatientsPage script_client 1 ([Response 200 None], []) = Some (Inr [], ?s')"
    using fetchPatientsPage_degrades_to_empty
      [where client = script_client and n = 1 and s = "([Response 200 None], [])"
        and status = 200 and w = "[]"]
    by (simp add: script_client_def ok_def)
  have none: "fetchPatientsPage script_client 1 ([Response 200 (Some payload)], [])
      = Some (Inr [], ?s')" if "\<forall>xs. get_prop payload (js ''data'') \<noteq> Inr (Arr xs)" for payload
    using fetchPatientsPage_degrades_to_empty
      [where client = script_client and n = 1 and s = "([Response 200 (Some payload)], [])"
        and payload = payload and s' = ?s'] that
    by (simp add: script_page)
  have c: "fetchPatientsPage script_client 1 ([Response 200 (Some (Obj []))], [])
      = Some (Inr [], ?s')"
    by (rule none) simp
  have d: "fetchPatientsPage script_client 1
       ([Response 200 (Some (Obj [(js ''data'', Str (js ''none''))]))], []) = Some (Inr [], ?s')"
    by (rule none) simp
  have e: "fetchPatientsPage script_client 1 ([Response 200 (Some Null)], []) = Some (Inr [], ?s')"
    by (rule none) simp
  have f: "fetchPatientsPage script_client 1
       ([Response 200 (Some (Obj [(js ''data'', Arr [Num (Fin 1), Null])]))], [])
     = Some (Inr [Num (Fin 1), Null], ?s')"
    using fetchPatientsPage_degrades_to_empty
      [where client = script_client and n = 1
        and s = "([Response 200 (Some (Obj [(js ''data'', Arr [Num (Fin 1), Null])]))], [])"
        and payload = "Obj [(js ''data'', Arr [Num (Fin 1), Null])]" and s' = ?s'
        and xs = "[Num (Fin 1), Null]"]
    by (simp add: script_page)
  have g: "fetchWithRetry script_client ?q ([Response 404 None], [])
      = Some (Inl (HttpError 404), ?s')"
    using fetchPatientsPage_degrades_to_empty
      [where client = script_client and req = ?q and s = "([Response 404 None], [])"
        and status = 404 and body = None and w = "[]"]
    by (simp add: script_client_def ok_def)
  have h: "fetchWithRetry script_client ?q ([Response 200 None], []) = Some (Inl SyntaxError, ?s')"
    using fetchPatientsPage_degrades_to_empty
      [where client = script_client and req = ?q and s = "([Response 200 None], [])"
        and status = 200 and w = "[]"]
    by (simp add: script_client_def ok_def)
  have "fetchWithRetry script_client ?q ([], []) = Some (Inl NetworkError, ?s')"
    by (subst fetchWithRetry_unfold) (simp add: script_client_def)
  then have i: "fetchPatientsPage script_client 1 ([], []) = Some (Inr [], ?s')"
    using fetchPatientsPage_degrades_to_empty
      [where client = script_client and n = 1 and s = "([], [])" and e = NetworkError
        and s' = ?s']
    by blast
  show ?thesis
    using a b c d e f g h i by blast
qed

section \<open>All pages\<close>

text \<open>
  One turn of the loop on a page that is not empty, one turn on an empty page, and the
  loop that never ends: if from the states of a set \<open>I\<close> the fetch of the page either
  does not return or returns the empty page in a state of \<open>I\<close>, no result is ever
  produced from a state of \<open>I\<close>.
\<close>

lemma fetchAll_loop_done: "3 < page \<Longrightarrow> fetchAll_loop client page acc s = Some (Inr acc, s)"
  by (subst fetchAll_loop.simps) simp

lemma fetchAll_loop_page:
  assumes "page \<le> 3" and "fetchPatientsPage client page s = Some (Inr xs, s1)" and "xs \<noteq> []"
  shows "fetchAll_loop client page acc s = fetchAll_loop client (page + 1) (acc @ xs) (wait 1000 s1)"
  using assms by (subst fetchAll_loop.simps) simp

lemma fetchAll_loop_empty:
  assumes "page \<le> 3" and "fetchPatientsPage client page s = Some (Inr [], s1)"
  shows "fetchAll_loop client page acc s = fetchAll_loop client page acc s1"
  using assms by (subst fetchAll_loop.simps) simp

lemma fetchAll_loop_spins:
  assumes page: "page \<le> 3"
    and persist: "\<And>s. I s \<Longrightarrow> fetchPatientsPage client page s = None
        \<or> (\<exists>s1. fetchPatientsPage client page s = Some (Inr [], s1) \<and> I s1)"
    and start: "I s"
  shows "fetchAll_loop client page acc s = None"
proof -
  have "\<not> (c = client \<and> k = page \<and> I t)" if run: "fetchAll_loop c k a t = Some y" for c k a t y
  proof (rule fetchAll_loop.raw_induct
      [where P = "\<lambda>c k a t y. \<not> (c = client \<and> k = page \<and> I t)", OF _ run])
    fix loop :: "'a client \<Rightarrow> nat \<Rightarrow> jsvalue list \<Rightarrow> 'a io
      \<Rightarrow> ((error + jsvalue list) \<times> 'a io) option"
    fix c k a t y
    assume IH: "\<And>c k a t y. loop c k a t = Some y \<Longrightarrow> \<not> (c = client \<and> k = page \<and> I t)"
      and step: "(if k \<le> 3 then
          (case fetchPatientsPage c k t of
             None \<Rightarrow> None
           | Some (r, s1) \<Rightarrow>
               (case r of
                  Inl e \<Rightarrow> Some (Inl e, s1)
                | Inr patients \<Rightarrow>
                    if patients = [] then loop c k a s1
                    else loop c (k + 1) (a @ patients) (wait 1000 s1)))
        else Some (Inr a, t)) = Some y"
    show "\<not> (c = client \<and> k = page \<and> I t)"
    proof
      assume h: "c = client \<and> k = page \<and> I t"
      then have "I t"
        by simp
      from persist [OF this] show False
      proof (elim disjE exE conjE)
        assume "fetchPatientsPage client page t = None"
        with step h page show False by simp
      next
        fix t1
        assume "fetchPatientsPage client page t = Some (Inr [], t1)" and t1: "I t1"
        with step h page have "loop client page a t1 = Some y" by simp
        with IH t1 show False by blast
      qed
    qed
  qed
  then have "fetchAll_loop client page acc s \<noteq> Some y" for y
    using start by blast
  then show ?thesis
    by (cases "fetchAll_loop client page acc s") auto
qed

lemma fetchAllPatients_collects:
  assumes "fetchPatientsPage client 1 s0 = Some (Inr xs1, s1)" "xs1 \<noteq> []"
    and "fetchPatientsPage client 2 (wait 1000 s1) = Some (Inr xs2, s2)" "xs2 \<noteq> []"
    and "fetchPatientsPage client 3 (wait 1000 s2) = Some (Inr xs3, s3)" "xs3 \<noteq> []"
  shows "fetchAllPatients client s0 = Some (Inr (xs1 @ xs2 @ xs3), wait 1000 s3)"
proof -
  have "fetchAllPatients client s0 = fetchAll_loop client 2 xs1 (wait 1000 s1)"
    using fetchAll_loop_page [of 1 client s0 xs1 s1 "[]"] assms(1,2)
    by (simp add: fetchAllPatients_def eval_nat_numeral)
  also have "\<dots> = fetchAll_loop client 3 (xs1 @ xs2) (wait 1000 s2)"
    using fetchAll_loop_page [of 2 client "wait 1000 s1" xs2 s2 xs1] assms(3,4) by (simp add: eval_nat_numeral)
  also have "\<dots> = fetchAll_loop client 4 (xs1 @ xs2 @ xs3) (wait 1000 s3)"
    using fetchAll_loop_page [of 3 client "wait 1000 s2" xs3 s3 "xs1 @ xs2"] assms(5,6) by (simp add: eval_nat_numeral)
  also have "\<dots> = Some (Inr (xs1 @ xs2 @ xs3), wait 1000 s3)"
    by (simp add: fetchAll_loop_done)
  finally show ?thesis .
qed

text \<open>
  Claim C6. When the fetch of page 1, then of page 2, then of page 3 returns a page that
  is not empty, \<^verbatim>\<open>fetchAllPatients\<close> returns, with the three pages one after the other,
  after a wait of 1000 ms behind each. An empty page sends the loop back to fetch the same
  page with the same array, and a page that stays empty, whether the first, the second or
  the third, keeps \<^verbatim>\<open>fetchAllPatients\<close> from ever returning.
\<close>

theorem fetchAllPatients_three_pages:
  "(fetchPatientsPage client 1 s0 = Some (Inr xs1, s1) \<and> xs1 \<noteq> []
      \<and> fetchPatientsPage client 2 (wait 1000 s1) = Some (Inr xs2, s2) \<and> xs2 \<noteq> []
      \<and> fetchPatientsPage client 3 (wait 1000 s2) = Some (Inr xs3, s3) \<and> xs3 \<noteq> [] \<longrightarrow>
        fetchAllPatients client s0 = Some (Inr (xs1 @ xs2 @ xs3), wait 1000 s3)
        \<and> length (xs1 @ xs2 @ xs3) = length xs1 + length xs2 + length xs3)
   \<and> (page \<le> 3 \<and> fetchPatientsPage client page s = Some (Inr [], s') \<longrightarrow>
        fetchAll_loop client page acc s = fetchAll_loop client page acc s')
   \<and> (I s0
      \<and> (\<forall>s. I s \<longrightarrow> fetchPatientsPage client 1 s = None
            \<or> (\<exists>s'. fetchPatientsPage client 1 s = Some (Inr [], s') \<and> I s')) \<longrightarrow>
        fetchAllPatients client s0 = None)
   \<and> (fetchPatientsPage client 1 s0 = Some (Inr xs1, s1) \<and> xs1 \<noteq> []
      \<and> I (wait 1000 s1)
      \<and> (\<forall>s. I s \<longrightarrow> fetchPatientsPage client 2 s = None
            \<or> (\<exists>s'. fetchPatientsPage client 2 s = Some (Inr [], s') \<and> I s')) \<longrightarrow>
        fetchAllPatients client s0 = None)
   \<and> (fetchPatientsPage client 1 s0 = Some (Inr xs1, s1) \<and> xs1 \<noteq> []
      \<and> fetchPatientsPage client 2 (wait 1000 s1) = Some (Inr xs2, s2) \<and> xs2 \<noteq> []
      \<and> I (wait 1000 s2)
      \<and> (\<forall>s. I s \<longrightarrow> fetchPatientsPage client 3 s = None
            \<or> (\<exists>s'. fetchPatientsPage client 3 s = Some (Inr [], s') \<and> I s')) \<longrightarrow>
        fetchAllPatients client s0 = None)"
proof -
  have spin: "fetchAll_loop client k a t = None"
    if "k \<le> 3" and "I t" and "\<forall>s. I s \<longrightarrow> fetchPatientsPage client k s = None
            \<or> (\<exists>s'. fetchPatientsPage client k s = Some (Inr [], s') \<and> I s')" for k a t
    using that by (intro fetchAll_loop_spins [where I = I]) auto
  have first: "fetchAllPatients client s0 = fetchAll_loop client 2 xs1 (wait 1000 s1)"
    if "fetchPatientsPage client 1 s0 = Some (Inr xs1, s1)" "xs1 \<noteq> []"
    using fetchAll_loop_page [of 1 client s0 xs1 s1 "[]"] that
    by (simp add: fetchAllPatients_def eval_nat_numeral)
  have second: "fetchAll_loop client 2 xs1 (wait 1000 s1)
      = fetchAll_loop client 3 (xs1 @ xs2) (wait 1000 s2)"
    if "fetchPatientsPage client 2 (wait 1000 s1) = Some (Inr xs2, s2)" "xs2 \<noteq> []"
    using fetchAll_loop_page [of 2 client "wait 1000 s1" xs2 s2 xs1] that
    by (simp add: eval_nat_numeral)
  have a: "fetchPatientsPage client 1 s0 = Some (Inr xs1, s1) \<and> xs1 \<noteq> []
      \<and> fetchPatientsPage client 2 (wait 1000 s1) = Some (Inr xs2, s2) \<and> xs2 \<noteq> []
      \<and> fetchPatientsPage client 3 (wait 1000 s2) = Some (Inr xs3, s3) \<and> xs3 \<noteq> [] \<longrightarrow>
        fetchAllPatients client s0 = Some (Inr (xs1 @ xs2 @ xs3), wait 1000 s3)
        \<and> length (xs1 @ xs2 @ xs3) = length xs1 + length xs2 + length xs3"
    by (simp add: fetchAllPatients_collects)
  have b: "page \<le> 3 \<and> fetchPatientsPage client page s = Some (Inr [], s') \<longrightarrow>
        fetchAll_loop client page acc s = fetchAll_loop client page acc s'"
    by (simp add: fetchAll_loop_empty)
  have c: "I s0
      \<and> (\<forall>s. I s \<longrightarrow> fetchPatientsPage client 1 s = None
            \<or> (\<exists>s'. fetchPatientsPage client 1 s = Some (Inr [], s') \<and> I s')) \<longrightarrow>
        fetchAllPatients client s0 = None"
    using spin [of 1 s0 "[]"] by (simp add: fetchAllPatients_def)
  have d: "fetchPatientsPage client 1 s0 = Some (Inr xs1, s1) \<and> xs1 \<noteq> []
      \<and> I (wait 1000 s1)
      \<and> (\<forall>s. I s \<longrightarrow> fetchPatientsPage client 2 s = None
            \<or> (\<exists>s'. fetchPatientsPage client 2 s = Some (Inr [], s') \<and> I s')) \<longrightarrow>
        fetchAllPatients client s0 = None"
    using spin [of 2 "wait 1000 s1" xs1] first by simp
  have e: "fetchPatientsPage client 1 s0 = Some (Inr xs1, s1) \<and> xs1 \<noteq> []
      \<and> fetchPatientsPage client 2 (wait 1000 s1) = Some (Inr xs2, s2) \<and> xs2 \<noteq> []
      \<and> I (wait 1000 s2)
      \<and> (\<forall>s. I s \<longrightarrow> fetchPatientsPage client 3 s = None
            \<or> (\<exists>s'. fetchPatientsPage client 3 s = Some (Inr [], s') \<and> I s')) \<longrightarrow>
        fetchAllPatients client s0 = None"
    using spin [of 3 "wait 1000 s2" "xs1 @ xs2"] first second by simp
  show ?thesis
    using a b c d e by blast
qed

lemma script_page_fetch:
  "fetchPatientsPage script_client n
     (Response 200 (Some (Obj [(js ''data'', Arr xs)])) # rest, tr)
   = Some (Inr xs, (rest, tr @ [Fetch (page_request n)]))"
  by (simp add: fetchPatientsPage_def script_page page_body_array)

theorem fetchAllPatients_three_pages_witness:
  "fetchAllPatients script_client
     ([Response 200 (Some (Obj [(js ''data'', Arr [Num (Fin 1), Num (Fin 2)])])),
       Response 200 (Some (Obj [(js ''data'', Arr [Num (Fin 3)])])),
       Response 200 (Some (Obj [(js ''data'', Arr [Num (Fin 4), Num (Fin 5)])]))], [])
     = Some (Inr [Num (Fin 1), Num (Fin 2), Num (Fin 3), Num (Fin 4), Num (Fin 5)],
         ([], [Fetch (page_request 1), Wait 1000, Fetch (page_request 2), Wait 1000,
               Fetch (page_request 3), Wait 1000]))
   \<and> fetchAllPatients (\<lambda>req w. (Response 200 (Some (Obj [(js ''data'', Arr [])])), w))
       ((), []) = None
   \<and> fetchAllPatients script_client
       ([Response 200 (Some (Obj [(js ''data'', Arr [Num (Fin 1), Num (Fin 2)])]))], []) = None
   \<and> fetchAllPatients script_client
       ([Response 200 (Some (Obj [(js ''data'', Arr [Num (Fin 1), Num (Fin 2)])])),
         Response 200 (Some (Obj [(js ''data'', Arr [Num (Fin 3)])]))], []) = None
   \<and> fetchAll_loop script_client 2 [Num (Fin 1)] ([Response 200 (Some (Obj []))], [])
     = fetchAll_loop script_client 2 [Num (Fin 1)] ([], [Fetch (page_request 2)])"
proof -
  let ?r1 = "Response 200 (Some (Obj [(js ''data'', Arr [Num (Fin 1), Num (Fin 2)])]))"
  let ?r2 = "Response 200 (Some (Obj [(js ''data'', Arr [Num (Fin 3)])]))"
  let ?r3 = "Response 200 (Some (Obj [(js ''data'', Arr [Num (Fin 4), Num (Fin 5)])]))"
  let ?empty = "\<lambda>(req :: request) (w :: unit). (Response 200 (Some (Obj [(js ''data'', Arr [])])), w)"
  have a: "fetchAllPatients script_client ([?r1, ?r2, ?r3], [])
     = Some (Inr [Num (Fin 1), Num (Fin 2), Num (Fin 3), Num (Fin 4), Num (Fin 5)],
         ([], [Fetch (page_request 1), Wait 1000, Fetch (page_request 2), Wait 1000,
               Fetch (page_request 3), Wait 1000]))"
    using fetchAllPatients_three_pages
      [where client = script_client and ?s0.0 = "([?r1, ?r2, ?r3], [])"
        and ?xs1.0 = "[Num (Fin 1), Num (Fin 2)]" and ?s1.0 = "([?r2, ?r3], [Fetch (page_request 1)])"
        and ?xs2.0 = "[Num (Fin 3)]"
        and ?s2.0 = "([?r3], [Fetch (page_request 1), Wait 1000, Fetch (page_request 2)])"
        and ?xs3.0 = "[Num (Fin 4), Num (Fin 5)]"
        and ?s3.0 = "([], [Fetch (page_request 1), Wait 1000, Fetch (page_request 2), Wait 1000,
               Fetch (page_request 3)])"]
    by (simp add: script_page_fetch wait_def)
  have "fetchPatientsPage ?empty 1 s = Some (Inr [], (fst s, snd s @ [Fetch (page_request 1)]))"
    for s
    by (simp add: fetchPatientsPage_def fetchWithRetry_success [where status = 200 and w = "fst s"]
        ok_def page_body_array)
  then have b: "fetchAllPatients ?empty ((), []) = None"
    using fetchAllPatients_three_pages
      [where client = ?empty and ?s0.0 = "((), [])" and I = "\<lambda>s. True"]
    by simp
  have "fetchPatientsPage script_client 2 s = Some (Inr [], ([], snd s @ [Fetch (page_request 2)]))"
    if "fst s = []" for s
    using that
    by (simp add: fetchPatientsPage_def page_body_error
        fetchWithRetry_unfold [of script_client _ s] script_client_def)
  then have c: "fetchAllPatients script_client ([?r1], []) = None"
    using fetchAllPatients_three_pages
      [where client = script_client and ?s0.0 = "([?r1], [])"
        and ?xs1.0 = "[Num (Fin 1), Num (Fin 2)]" and ?s1.0 = "([], [Fetch (page_request 1)])"
        and I = "\<lambda>s. fst s = []"]
    by (simp add: script_page_fetch wait_def)
  have "fetchPatientsPage script_client 3 s = Some (Inr [], ([], snd s @ [Fetch (page_request 3)]))"
    if "fst s = []" for s
    using that
    by (simp add: fetchPatientsPage_def page_body_error
        fetchWithRetry_unfold [of script_client _ s] script_client_def)
  then have d: "fetchAllPatients script_client ([?r1, ?r2], []) = None"
    using fetchAllPatients_three_pages
      [where client = script_client and ?s0.0 = "([?r1, ?r2], [])"
        and ?xs1.0 = "[Num (Fin 1), Num (Fin 2)]" and ?s1.0 = "([?r2], [Fetch (page_request 1)])"
        and ?xs2.0 = "[Num (Fin 3)]"
        and ?s2.0 = "([], [Fetch (page_request 1), Wait 1000, Fetch (page_request 2)])"
        and I = "\<lambda>s. fst s = []"]
    by (simp add: script_page_fetch wait_def)
  have "fetchPatientsPage script_client 2 ([Response 200 (Some (Obj []))], [])
      = Some (Inr [], ([], [Fetch (page_request 2)]))"
    by (simp add: fetchPatientsPage_def script_page page_body_no_array)
  then have e: "fetchAll_loop script_client 2 [Num (Fin 1)] ([Response 200 (Some (Obj []))], [])
      = fetchAll_loop script_client 2 [Num (Fin 1)] ([], [Fetch (page_request 2)])"
    using fetchAllPatients_three_pages
      [where client = script_client and page = 2
        and s = "([Response 200 (Some (Obj []))], [])" and s' = "([], [Fetch (page_request 2)])"
        and acc = "[Num (Fin 1)]"]
    by simp
  show ?thesis
    using a b c d e by blast
qed

end
